theory Spec2Isabelle
  imports Main
begin

section \<open>Text\<close>

text \<open>
  A Python \<open>str\<close> is a sequence of Unicode code points; \<open>len\<close> counts code points.
  Literals of the source that are not ASCII are written as lists of code points.
\<close>

type_synonym codepoint = nat
type_synonym str = "codepoint list"

definition ascii :: "string \<Rightarrow> str" where
  "ascii s = map of_char s"

text \<open>
  The characters \<open>str.isspace\<close>, \<open>str.strip\<close> and the regular-expression class
  \<open>\s\<close> treat as whitespace (CPython's \<open>_PyUnicode_IsWhitespace\<close>).
\<close>

definition isspace :: "codepoint \<Rightarrow> bool" where
  "isspace c \<longleftrightarrow>
     (9 \<le> c \<and> c \<le> 13) \<or> (28 \<le> c \<and> c \<le> 32) \<or> c = 133 \<or> c = 160 \<or> c = 5760 \<or>
     (8192 \<le> c \<and> c \<le> 8202) \<or> c = 8232 \<or> c = 8233 \<or> c = 8239 \<or> c = 8287 \<or> c = 12288"

definition strip :: "str \<Rightarrow> str" where
  "strip s = rev (dropWhile isspace (rev (dropWhile isspace s)))"

definition startswith :: "str \<Rightarrow> str \<Rightarrow> bool" where
  "startswith s p \<longleftrightarrow> take (length p) s = p"

text \<open>
  The interpreter's Unicode character database decides which characters the class \<open>\d\<close>
  and \<open>int\<close> take as decimal digits (and with which value), which ones \<open>str.isdigit\<close>
  takes as digits, and what \<open>str.lower\<close> returns. It belongs to the interpreter, not to
  the repository, and differs between interpreter versions, so the functions that consult
  it take it as a parameter.
\<close>

record ucd =
  ucd_decimal :: "codepoint \<Rightarrow> nat option"
  ucd_digit :: "codepoint \<Rightarrow> bool"
  ucd_lower :: "str \<Rightarrow> str"

definition isdecimal :: "ucd \<Rightarrow> codepoint \<Rightarrow> bool" where
  "isdecimal u c \<longleftrightarrow> ucd_decimal u c \<noteq> None"

text \<open>
  Lower-casing on Basic Latin and on the Cyrillic block up to U+045F, where it is the same
  in every version of the database and works character by character.
\<close>

definition basic_cp :: "codepoint \<Rightarrow> bool" where
  "basic_cp c \<longleftrightarrow> c < 128 \<or> (1024 \<le> c \<and> c \<le> 1119)"

definition lower_cp :: "codepoint \<Rightarrow> codepoint" where
  "lower_cp c =
     (if 65 \<le> c \<and> c \<le> 90 then c + 32
      else if 1040 \<le> c \<and> c \<le> 1071 then c + 32
      else if 1024 \<le> c \<and> c \<le> 1039 then c + 80
      else c)"

text \<open>
  What every version of the database satisfies and the proofs below rely on: the ASCII
  digits are decimal digits with their usual values, a decimal digit has a value below ten
  and is a digit for \<open>str.isdigit\<close>, whitespace is never a digit, no other ASCII
  character is a digit, and a text over the two blocks above is lower-cased character by
  character.
\<close>

definition ucd_ok :: "ucd \<Rightarrow> bool" where
  "ucd_ok u \<longleftrightarrow>
     list_all (\<lambda>d. ucd_decimal u (48 + d) = Some d) [0 ..< 10] \<and>
     (\<forall>c v. ucd_decimal u c = Some v \<longrightarrow> v < 10 \<and> ucd_digit u c) \<and>
     (\<forall>c. isspace c \<longrightarrow> \<not> ucd_digit u c) \<and>
     (\<forall>c<128. ucd_digit u c \<longrightarrow> 48 \<le> c \<and> c \<le> 57) \<and>
     (\<forall>s. list_all basic_cp s \<longrightarrow> ucd_lower u s = map lower_cp s)"

text \<open>
  The part of the database on those two blocks and Latin-1, for evaluating the functions
  on concrete text drawn from them: the decimal digits \<open>0\<close> to \<open>9\<close>, the further digits
  superscript two, three and one, and the lower-casing above.
\<close>

definition ucd_basic :: ucd where
  "ucd_basic = \<lparr>
     ucd_decimal = (\<lambda>c. if 48 \<le> c \<and> c \<le> 57 then Some (c - 48) else None),
     ucd_digit = (\<lambda>c. (48 \<le> c \<and> c \<le> 57) \<or> c = 178 \<or> c = 179 \<or> c = 185),
     ucd_lower = map lower_cp \<rparr>"

section \<open>Regular expressions\<close>

text \<open>
  The fragment of \<open>re\<close> syntax the phone patterns are written in: a pattern is a sequence
  of the anchors \<open>^\<close> and \<open>$\<close> and of character classes with a repetition count
  \<open>{lo,hi}\<close> (a bare class is \<open>{1,1}\<close>, \<open>?\<close> is \<open>{0,1}\<close>, \<open>{n}\<close> is \<open>{n,n}\<close>).
  \<open>re_match\<close> is \<open>re.match\<close> read as a truth value: some prefix of the text matches
  the pattern. The flag is true while nothing has been consumed; \<open>$\<close> holds at the end of
  the text and before a final newline.
\<close>

datatype cls = Lit codepoint | Dec | Spc

datatype item = Bol | Eol | Rep cls nat nat

fun cls_match :: "ucd \<Rightarrow> cls \<Rightarrow> codepoint \<Rightarrow> bool" where
  "cls_match u (Lit l) c = (c = l)"
| "cls_match u Dec c = isdecimal u c"
| "cls_match u Spc c = isspace c"

fun re_match :: "ucd \<Rightarrow> bool \<Rightarrow> item list \<Rightarrow> str \<Rightarrow> bool" where
  "re_match u b [] s = True"
| "re_match u b (Bol # r) s = (b \<and> re_match u b r s)"
| "re_match u b (Eol # r) s = ((s = [] \<or> s = [10]) \<and> re_match u b r s)"
| "re_match u b (Rep a lo hi # r) s =
     ((lo = 0 \<and> re_match u b r s) \<or>
      (0 < hi \<and> (case s of [] \<Rightarrow> False
                 | c # cs \<Rightarrow> cls_match u a c \<and> re_match u False (Rep a (lo - 1) (hi - 1) # r) cs)))"

section \<open>utils/helpers.py\<close>

definition PAT_GROUPED :: "item list" where
  "PAT_GROUPED = [Bol, Rep (Lit 43) 1 1, Rep Dec 2 2, Rep Spc 0 1, Rep Dec 3 3, Rep Spc 0 1,
                  Rep Dec 3 3, Rep Spc 0 1, Rep Dec 4 4, Eol]"

definition PAT_LOCAL :: "item list" where
  "PAT_LOCAL = [Bol, Rep (Lit 48) 1 1, Rep Dec 9 9, Eol]"

definition PAT_PLUS :: "item list" where
  "PAT_PLUS = [Bol, Rep (Lit 43) 1 1, Rep Dec 9 15, Eol]"

definition is_phone_valid :: "ucd \<Rightarrow> str \<Rightarrow> bool" where
  "is_phone_valid u phone =
     (let phone = strip phone;
          patterns = [PAT_GROUPED, PAT_LOCAL, PAT_PLUS]
      in list_ex (\<lambda>pattern. re_match u True pattern phone) patterns)"

definition normalize_card_text :: "str \<Rightarrow> str" where
  "normalize_card_text text = take 200 (strip text)"

subsection \<open>The accepted phone shapes, in the specification's words\<close>

text \<open>
  Read from the specification, not from the patterns: a run of digits, a group of \<open>n\<close>
  digits followed by the rest, and an optional single separator character. The shapes are
  the international one grouped as 2, 3, 3 and 4 digits after a plus sign, the local one
  of ten digits beginning with \<open>0\<close>, and a plus sign followed by 9 to 15 digits. The
  separator is a parameter: a space alone, or any whitespace character.
\<close>

definition digits :: "ucd \<Rightarrow> str \<Rightarrow> bool" where
  "digits u s = list_all (isdecimal u) s"

definition group :: "ucd \<Rightarrow> nat \<Rightarrow> (str \<Rightarrow> bool) \<Rightarrow> str \<Rightarrow> bool" where
  "group u n k s \<longleftrightarrow> n \<le> length s \<and> digits u (take n s) \<and> k (drop n s)"

definition opt_sep :: "(codepoint \<Rightarrow> bool) \<Rightarrow> (str \<Rightarrow> bool) \<Rightarrow> str \<Rightarrow> bool" where
  "opt_sep sep k s \<longleftrightarrow> k s \<or> (case s of [] \<Rightarrow> False | c # cs \<Rightarrow> sep c \<and> k cs)"

definition shape_grouped :: "(codepoint \<Rightarrow> bool) \<Rightarrow> ucd \<Rightarrow> str \<Rightarrow> bool" where
  "shape_grouped sep u s =
     (case s of [] \<Rightarrow> False
      | c # r \<Rightarrow> c = 43 \<and>
          group u 2 (opt_sep sep (group u 3 (opt_sep sep (group u 3 (opt_sep sep
            (\<lambda>t. length t = 4 \<and> digits u t)))))) r)"

definition shape_local :: "ucd \<Rightarrow> str \<Rightarrow> bool" where
  "shape_local u s \<longleftrightarrow> length s = 10 \<and> digits u s \<and> take 1 s = [48]"

definition shape_plus :: "ucd \<Rightarrow> str \<Rightarrow> bool" where
  "shape_plus u s =
     (case s of [] \<Rightarrow> False
      | c # r \<Rightarrow> c = 43 \<and> 9 \<le> length r \<and> length r \<le> 15 \<and> digits u r)"

definition phone_shapes :: "(codepoint \<Rightarrow> bool) \<Rightarrow> ucd \<Rightarrow> str \<Rightarrow> bool" where
  "phone_shapes sep u s \<longleftrightarrow> shape_grouped sep u s \<or> shape_local u s \<or> shape_plus u s"

definition is_space_char :: "codepoint \<Rightarrow> bool" where
  "is_space_char c \<longleftrightarrow> c = 32"

text \<open>A text that is empty or does not end in whitespace, as every stripped text is.\<close>

definition no_trailing_space :: "str \<Rightarrow> bool" where
  "no_trailing_space s \<longleftrightarrow> s = [] \<or> \<not> isspace (last s)"

text \<open>A pattern and a predicate on texts agree on every text without trailing whitespace.\<close>

definition agrees :: "ucd \<Rightarrow> item list \<Rightarrow> (str \<Rightarrow> bool) \<Rightarrow> bool" where
  "agrees u r k \<longleftrightarrow> (\<forall>t b. no_trailing_space t \<longrightarrow> re_match u b r t = k t)"

section \<open>database/models.py\<close>

text \<open>
  The row containers. \<open>created_at\<close> is the engine's clock reading at the insert, in
  seconds. Integers are Python's unbounded ones; no claim below depends on the 64-bit
  bound of the engine's integer column.
\<close>

type_synonym timestamp = nat

record category =
  cat_id :: int
  cat_name :: str
  cat_created_at :: timestamp

record product =
  prod_id :: int
  prod_category_id :: int
  prod_name :: str
  prod_price :: int
  prod_price_from :: bool
  prod_description :: str
  prod_photo_file_id :: str
  prod_is_active :: bool
  prod_created_at :: timestamp

record order =
  ord_id :: int
  ord_user_id :: int
  ord_username :: "str option"
  ord_product_id :: int
  ord_price :: int
  ord_delivery_date :: str
  ord_delivery_time :: str
  ord_address :: str
  ord_card_text :: "str option"
  ord_phone :: str
  ord_status :: str
  ord_created_at :: timestamp

record support_message =
  sup_id :: int
  sup_user_id :: int
  sup_username :: "str option"
  sup_text :: str
  sup_created_at :: timestamp

section \<open>database/db.py\<close>

datatype error =
    RuntimeError str
  | AttributeError
  | OperationalError
  | IntegrityError
  | KeyError string
  | ValueError
  | OverflowError
  | IndexError

text \<open>
  What an open connection gives access to: the four tables (rows in rowid order) once the
  schema exists, the engine's \<open>AUTOINCREMENT\<close> counters, and the rowid of the
  connection's last successful insert, which is what \<open>cursor.lastrowid\<close> reads.
\<close>

record tables =
  has_schema :: bool
  categories :: "category list"
  products :: "product list"
  orders :: "order list"
  support_messages :: "support_message list"
  seq_categories :: int
  seq_products :: int
  seq_orders :: int
  seq_support :: int
  last_insert_rowid :: int

definition empty_file :: tables where
  "empty_file = \<lparr> has_schema = False, categories = [], products = [], orders = [],
     support_messages = [], seq_categories = 0, seq_products = 0, seq_orders = 0,
     seq_support = 0, last_insert_rowid = 0 \<rparr>"

record database =
  db_path :: str
  conn :: "tables option"

definition Database :: "str \<Rightarrow> database" where
  "Database path = \<lparr> db_path = path, conn = None \<rparr>"

text \<open>\<open>connect\<close> opens the file at \<open>db_path\<close>, whose content is the second argument.\<close>

definition connect :: "database \<Rightarrow> tables \<Rightarrow> database" where
  "connect db file = db\<lparr>conn := Some (file\<lparr>last_insert_rowid := 0\<rparr>)\<rparr>"

definition close :: "database \<Rightarrow> database" where
  "close db = (case conn db of None \<Rightarrow> db | Some t \<Rightarrow> db\<lparr>conn := None\<rparr>)"

text \<open>
  \<open>self._conn.execute(...)\<close>: an attribute error when \<open>_conn\<close> is \<open>None\<close>, an
  operational error when the tables do not exist yet.
\<close>

definition execute :: "database \<Rightarrow> error + tables" where
  "execute db =
     (case conn db of
        None \<Rightarrow> Inl AttributeError
      | Some t \<Rightarrow> if has_schema t then Inr t else Inl OperationalError)"

definition commit :: "database \<Rightarrow> tables \<Rightarrow> database" where
  "commit db t = db\<lparr>conn := Some t\<rparr>"

text \<open>The rowid an \<open>AUTOINCREMENT\<close> table gives its next row.\<close>

definition next_rowid :: "int \<Rightarrow> int list \<Rightarrow> int" where
  "next_rowid seq ids = fold max ids seq + 1"

definition sql_limit :: "int \<Rightarrow> 'a list \<Rightarrow> 'a list" where
  "sql_limit n xs = (if n < 0 then xs else take (nat n) xs)"

definition sql_offset :: "int \<Rightarrow> 'a list \<Rightarrow> 'a list" where
  "sql_offset n xs = drop (nat n) xs"

text \<open>
  \<open>ORDER BY created_at DESC\<close>: rows with equal timestamps stay in rowid order, as the
  engine returns them.
\<close>

definition order_by_created_desc :: "('a \<Rightarrow> timestamp) \<Rightarrow> 'a list \<Rightarrow> 'a list" where
  "order_by_created_desc created rows = sort_key (\<lambda>r. - int (created r)) rows"

definition STATUS_NEW :: str where
  "STATUS_NEW = [128993, 32, 1053, 1086, 1074, 1099, 1081]"

definition STATUS_IN_WORK :: str where
  "STATUS_IN_WORK = [128309, 32, 1042, 32, 1088, 1072, 1073, 1086, 1090, 1077]"

definition STATUS_DONE :: str where
  "STATUS_DONE = [128994, 32, 1047, 1072, 1074, 1077, 1088, 1096, 1105, 1085]"

definition STATUS_CANCELLED :: str where
  "STATUS_CANCELLED = [10060, 32, 1054, 1090, 1084, 1077, 1085, 1105, 1085]"

definition DEFAULT_CATEGORIES :: "str list" where
  "DEFAULT_CATEGORIES =
     [[127801, 32, 1056, 1086, 1079, 1099],
      [127800, 32, 1057, 1077, 1079, 1086, 1085, 1085, 1099, 1077],
      [127873, 32, 1042, 32, 1082, 1086, 1088, 1086, 1073, 1082, 1077],
      [128141, 32, 1057, 1074, 1072, 1076, 1077, 1073, 1085, 1099, 1077],
      [127807, 32, 1052, 1080, 1085, 1080],
      [127752, 32, 1048, 1085, 1076, 1080, 1074, 1080, 1076, 1091, 1072, 1083, 1100, 1085,
       1099, 1081, 32, 1079, 1072, 1082, 1072, 1079]]"

text \<open>
  \<open>INSERT OR IGNORE\<close> under the \<open>UNIQUE\<close> constraint on \<open>name\<close>: a duplicate name
  inserts nothing. The engine has drawn a rowid from the counter by then, so the counter
  advances all the same; \<open>lastrowid\<close> stays that of the last insert that happened.
\<close>

definition add_category :: "database \<Rightarrow> str \<Rightarrow> timestamp \<Rightarrow> error + int \<times> database" where
  "add_category db name now =
     (case execute db of
        Inl e \<Rightarrow> Inl e
      | Inr t \<Rightarrow>
          let i = next_rowid (seq_categories t) (map cat_id (categories t)) in
          if name \<in> set (map cat_name (categories t))
          then Inr (last_insert_rowid t, commit db (t\<lparr>seq_categories := i\<rparr>))
          else Inr (i, commit db (t\<lparr>
                 categories := categories t @
                   [\<lparr> cat_id = i, cat_name = name, cat_created_at = now \<rparr>],
                 seq_categories := i, last_insert_rowid := i\<rparr>)))"

text \<open>
  \<open>UPDATE categories SET name = ? WHERE id = ?\<close>: an integrity error, and no change,
  when another row already has the new name.
\<close>

definition rename_category :: "database \<Rightarrow> int \<Rightarrow> str \<Rightarrow> error + database" where
  "rename_category db category_id new_name =
     (case execute db of
        Inl e \<Rightarrow> Inl e
      | Inr t \<Rightarrow>
          if list_ex (\<lambda>c. cat_id c = category_id) (categories t) \<and>
             list_ex (\<lambda>c. cat_id c \<noteq> category_id \<and> cat_name c = new_name) (categories t)
          then Inl IntegrityError
          else Inr (commit db (t\<lparr>categories :=
                 map (\<lambda>c. if cat_id c = category_id then c\<lparr>cat_name := new_name\<rparr> else c)
                   (categories t)\<rparr>)))"

text \<open>
  \<open>DELETE FROM categories WHERE id = ?\<close> with foreign keys enforced: the products of the
  category go with it (\<open>ON DELETE CASCADE\<close>), unless an order refers to one of them,
  which makes the statement fail.
\<close>

definition delete_category :: "database \<Rightarrow> int \<Rightarrow> error + database" where
  "delete_category db category_id =
     (case execute db of
        Inl e \<Rightarrow> Inl e
      | Inr t \<Rightarrow>
          let gone = filter (\<lambda>p. prod_category_id p = category_id) (products t) in
          if list_ex (\<lambda>c. cat_id c = category_id) (categories t) \<and>
             list_ex (\<lambda>ord. ord_product_id ord \<in> set (map prod_id gone)) (orders t)
          then Inl IntegrityError
          else if list_ex (\<lambda>c. cat_id c = category_id) (categories t)
          then Inr (commit db (t\<lparr>
                 categories := filter (\<lambda>c. cat_id c \<noteq> category_id) (categories t),
                 products := filter (\<lambda>p. prod_category_id p \<noteq> category_id) (products t)\<rparr>))
          else Inr (commit db t))"

definition get_categories :: "database \<Rightarrow> error + category list" where
  "get_categories db =
     (case execute db of
        Inl e \<Rightarrow> Inl e
      | Inr t \<Rightarrow> Inr (sort_key cat_id (categories t)))"

definition add_product ::
  "database \<Rightarrow> int \<Rightarrow> str \<Rightarrow> int \<Rightarrow> bool \<Rightarrow> str \<Rightarrow> str \<Rightarrow> bool \<Rightarrow> timestamp \<Rightarrow> error + int \<times> database"
where
  "add_product db category_id name price price_from description photo_file_id is_active now =
     (case execute db of
        Inl e \<Rightarrow> Inl e
      | Inr t \<Rightarrow>
          if category_id \<notin> set (map cat_id (categories t)) then Inl IntegrityError
          else
            let i = next_rowid (seq_products t) (map prod_id (products t)) in
            Inr (i, commit db (t\<lparr>
              products := products t @
                [\<lparr> prod_id = i, prod_category_id = category_id, prod_name = name,
                   prod_price = price, prod_price_from = price_from,
                   prod_description = description, prod_photo_file_id = photo_file_id,
                   prod_is_active = is_active, prod_created_at = now \<rparr>],
              seq_products := i, last_insert_rowid := i\<rparr>)))"

text \<open>
  The keyword arguments \<open>**fields\<close> of \<open>update_product\<close>, one constructor for each column a caller
  can set with a value of the column's type.
\<close>

datatype product_field =
    Set_category_id int
  | Set_name str
  | Set_price int
  | Set_price_from bool
  | Set_description str
  | Set_photo_file_id str
  | Set_is_active bool

fun set_field :: "product_field \<Rightarrow> product \<Rightarrow> product" where
  "set_field (Set_category_id v) p = p\<lparr>prod_category_id := v\<rparr>"
| "set_field (Set_name v) p = p\<lparr>prod_name := v\<rparr>"
| "set_field (Set_price v) p = p\<lparr>prod_price := v\<rparr>"
| "set_field (Set_price_from v) p = p\<lparr>prod_price_from := v\<rparr>"
| "set_field (Set_description v) p = p\<lparr>prod_description := v\<rparr>"
| "set_field (Set_photo_file_id v) p = p\<lparr>prod_photo_file_id := v\<rparr>"
| "set_field (Set_is_active v) p = p\<lparr>prod_is_active := v\<rparr>"

fun is_category_field :: "product_field \<Rightarrow> bool" where
  "is_category_field (Set_category_id v) = True"
| "is_category_field f = False"

text \<open>
  \<open>update_product\<close> returns at once when no field is given. Otherwise the row with the
  id gets the new values; a new category must exist, or the statement fails on the foreign
  key.
\<close>

definition update_product :: "database \<Rightarrow> int \<Rightarrow> product_field list \<Rightarrow> error + database" where
  "update_product db product_id kwargs =
     (if kwargs = [] then Inr db
      else
        case execute db of
          Inl e \<Rightarrow> Inl e
        | Inr t \<Rightarrow>
            let rows = map (\<lambda>p. if prod_id p = product_id then fold set_field kwargs p else p)
                         (products t) in
            if list_ex is_category_field kwargs \<and>
               list_ex (\<lambda>p. prod_id p = product_id \<and>
                            prod_category_id p \<notin> set (map cat_id (categories t))) rows
            then Inl IntegrityError
            else Inr (commit db (t\<lparr>products := rows\<rparr>)))"

definition delete_product :: "database \<Rightarrow> int \<Rightarrow> error + database" where
  "delete_product db product_id =
     (case execute db of
        Inl e \<Rightarrow> Inl e
      | Inr t \<Rightarrow>
          if list_ex (\<lambda>p. prod_id p = product_id) (products t) \<and>
             list_ex (\<lambda>ord. ord_product_id ord = product_id) (orders t)
          then Inl IntegrityError
          else Inr (commit db (t\<lparr>products :=
                 filter (\<lambda>p. prod_id p \<noteq> product_id) (products t)\<rparr>)))"

definition active_in_category :: "int \<Rightarrow> product \<Rightarrow> bool" where
  "active_in_category category_id p \<longleftrightarrow> prod_category_id p = category_id \<and> prod_is_active p"

definition get_products_by_category ::
  "database \<Rightarrow> int \<Rightarrow> int \<Rightarrow> int \<Rightarrow> error + product list"
where
  "get_products_by_category db category_id limit offset =
     (case execute db of
        Inl e \<Rightarrow> Inl e
      | Inr t \<Rightarrow>
          Inr (sql_limit limit (sql_offset offset
            (order_by_created_desc prod_created_at
              (filter (active_in_category category_id) (products t))))))"

definition count_products_in_category :: "database \<Rightarrow> int \<Rightarrow> error + int" where
  "count_products_in_category db category_id =
     (case execute db of
        Inl e \<Rightarrow> Inl e
      | Inr t \<Rightarrow> Inr (int (length (filter (active_in_category category_id) (products t)))))"

definition get_product :: "database \<Rightarrow> int \<Rightarrow> error + product option" where
  "get_product db product_id =
     (case execute db of
        Inl e \<Rightarrow> Inl e
      | Inr t \<Rightarrow> Inr (find (\<lambda>p. prod_id p = product_id) (products t)))"

definition create_order ::
  "database \<Rightarrow> int \<Rightarrow> str option \<Rightarrow> int \<Rightarrow> int \<Rightarrow> str \<Rightarrow> str \<Rightarrow> str \<Rightarrow> str option \<Rightarrow> str \<Rightarrow> str \<Rightarrow>
   timestamp \<Rightarrow> error + int \<times> database"
where
  "create_order db user_id username product_id price delivery_date delivery_time address
       card_text phone status now =
     (case execute db of
        Inl e \<Rightarrow> Inl e
      | Inr t \<Rightarrow>
          if product_id \<notin> set (map prod_id (products t)) then Inl IntegrityError
          else
            let i = next_rowid (seq_orders t) (map ord_id (orders t)) in
            Inr (i, commit db (t\<lparr>
              orders := orders t @
                [\<lparr> ord_id = i, ord_user_id = user_id, ord_username = username,
                   ord_product_id = product_id, ord_price = price,
                   ord_delivery_date = delivery_date, ord_delivery_time = delivery_time,
                   ord_address = address, ord_card_text = card_text, ord_phone = phone,
                   ord_status = status, ord_created_at = now \<rparr>],
              seq_orders := i, last_insert_rowid := i\<rparr>)))"

definition update_order_status :: "database \<Rightarrow> int \<Rightarrow> str \<Rightarrow> error + database" where
  "update_order_status db order_id status =
     (case execute db of
        Inl e \<Rightarrow> Inl e
      | Inr t \<Rightarrow>
          Inr (commit db (t\<lparr>orders :=
            map (\<lambda>ord. if ord_id ord = order_id then ord\<lparr>ord_status := status\<rparr> else ord)
              (orders t)\<rparr>)))"

definition get_user_orders :: "database \<Rightarrow> int \<Rightarrow> int \<Rightarrow> error + order list" where
  "get_user_orders db user_id limit =
     (case execute db of
        Inl e \<Rightarrow> Inl e
      | Inr t \<Rightarrow>
          Inr (sql_limit limit (order_by_created_desc ord_created_at
            (filter (\<lambda>ord. ord_user_id ord = user_id) (orders t)))))"

definition get_last_completed_orders :: "database \<Rightarrow> int \<Rightarrow> int \<Rightarrow> error + order list" where
  "get_last_completed_orders db user_id limit =
     (case execute db of
        Inl e \<Rightarrow> Inl e
      | Inr t \<Rightarrow>
          Inr (sql_limit limit (order_by_created_desc ord_created_at
            (filter (\<lambda>ord. ord_user_id ord = user_id \<and> ord_status ord = STATUS_DONE)
              (orders t)))))"

definition get_order :: "database \<Rightarrow> int \<Rightarrow> error + order option" where
  "get_order db order_id =
     (case execute db of
        Inl e \<Rightarrow> Inl e
      | Inr t \<Rightarrow> Inr (find (\<lambda>ord. ord_id ord = order_id) (orders t)))"

definition save_support_message ::
  "database \<Rightarrow> int \<Rightarrow> str option \<Rightarrow> str \<Rightarrow> timestamp \<Rightarrow> error + int \<times> database"
where
  "save_support_message db user_id username text now =
     (case execute db of
        Inl e \<Rightarrow> Inl e
      | Inr t \<Rightarrow>
          let i = next_rowid (seq_support t) (map sup_id (support_messages t)) in
          Inr (i, commit db (t\<lparr>
            support_messages := support_messages t @
              [\<lparr> sup_id = i, sup_user_id = user_id, sup_username = username,
                 sup_text = text, sup_created_at = now \<rparr>],
            seq_support := i, last_insert_rowid := i\<rparr>)))"

text \<open>The seeding loop of \<open>create_schema\<close>.\<close>

fun add_categories :: "database \<Rightarrow> str list \<Rightarrow> timestamp \<Rightarrow> error + database" where
  "add_categories db [] now = Inr db"
| "add_categories db (name # names) now =
     (case add_category db name now of
        Inl e \<Rightarrow> Inl e
      | Inr (i, db') \<Rightarrow> add_categories db' names now)"

text \<open>
  \<open>create_schema\<close> is the one operation that checks the connection itself. Its
  \<open>CREATE TABLE IF NOT EXISTS\<close> script leaves existing tables as they are.
\<close>

definition NOT_INITIALIZED :: error where
  "NOT_INITIALIZED = RuntimeError (ascii ''Database connection is not initialized'')"

definition create_schema :: "database \<Rightarrow> timestamp \<Rightarrow> error + database" where
  "create_schema db now =
     (case conn db of
        None \<Rightarrow> Inl NOT_INITIALIZED
      | Some t \<Rightarrow>
          let db1 = commit db (t\<lparr>has_schema := True\<rparr>) in
          case get_categories db1 of
            Inl e \<Rightarrow> Inl e
          | Inr cats \<Rightarrow> if cats = [] then add_categories db1 DEFAULT_CATEGORIES now else Inr db1)"

section \<open>Dates and times of day\<close>

text \<open>
  \<open>datetime.date\<close> with its calendar arithmetic and the two renderings the keyboards
  use. \<open>date + timedelta(days=n)\<close> for \<open>n \<ge> 0\<close> steps forward \<open>n\<close> days and raises
  \<open>OverflowError\<close> beyond year 9999. \<open>fromisoformat\<close> is modelled on the format
  \<open>isoformat\<close> writes, \<open>YYYY-MM-DD\<close>; every date payload the keyboards build has it.
\<close>

record date =
  dt_year :: nat
  dt_month :: nat
  dt_day :: nat

record time_of_day =
  tm_hour :: nat
  tm_minute :: nat
  tm_second :: nat
  tm_microsecond :: nat

record datetime =
  the_date :: date
  the_time :: time_of_day

definition is_leap :: "nat \<Rightarrow> bool" where
  "is_leap y \<longleftrightarrow> y mod 4 = 0 \<and> (y mod 100 \<noteq> 0 \<or> y mod 400 = 0)"

definition days_in_month :: "nat \<Rightarrow> nat \<Rightarrow> nat" where
  "days_in_month y m =
     (if m = 2 then (if is_leap y then 29 else 28)
      else if m = 4 \<or> m = 6 \<or> m = 9 \<or> m = 11 then 30 else 31)"

definition valid_date :: "date \<Rightarrow> bool" where
  "valid_date d \<longleftrightarrow>
     1 \<le> dt_year d \<and> dt_year d \<le> 9999 \<and> 1 \<le> dt_month d \<and> dt_month d \<le> 12 \<and>
     1 \<le> dt_day d \<and> dt_day d \<le> days_in_month (dt_year d) (dt_month d)"

definition next_day :: "date \<Rightarrow> date" where
  "next_day d =
     (if dt_day d < days_in_month (dt_year d) (dt_month d) then d\<lparr>dt_day := dt_day d + 1\<rparr>
      else if dt_month d < 12 then d\<lparr>dt_month := dt_month d + 1, dt_day := 1\<rparr>
      else \<lparr> dt_year = dt_year d + 1, dt_month = 1, dt_day = 1 \<rparr>)"

definition add_days :: "date \<Rightarrow> nat \<Rightarrow> error + date" where
  "add_days d n =
     (let r = (next_day ^^ n) d in if 9999 < dt_year r then Inl OverflowError else Inr r)"

text \<open>The two decimal digits of a month or day, the four of a year up to 9999.\<close>

definition pad2 :: "nat \<Rightarrow> str" where
  "pad2 n = [48 + n div 10 mod 10, 48 + n mod 10]"

definition pad4 :: "nat \<Rightarrow> str" where
  "pad4 n = pad2 (n div 100) @ pad2 (n mod 100)"

definition isoformat :: "date \<Rightarrow> str" where
  "isoformat d = pad4 (dt_year d) @ [45] @ pad2 (dt_month d) @ [45] @ pad2 (dt_day d)"

text \<open>\<open>strftime("%d.%m")\<close>\<close>

definition strftime_day_month :: "date \<Rightarrow> str" where
  "strftime_day_month d = pad2 (dt_day d) @ [46] @ pad2 (dt_month d)"

fun ascii_number :: "nat \<Rightarrow> str \<Rightarrow> nat option" where
  "ascii_number acc [] = Some acc"
| "ascii_number acc (c # cs) =
     (if 48 \<le> c \<and> c \<le> 57 then ascii_number (10 * acc + (c - 48)) cs else None)"

definition fromisoformat :: "str \<Rightarrow> error + date" where
  "fromisoformat s =
     (if length s = 10 \<and> s ! 4 = 45 \<and> s ! 7 = 45 then
        (case (ascii_number 0 (take 4 s), ascii_number 0 (take 2 (drop 5 s)),
               ascii_number 0 (drop 8 s)) of
           (Some y, Some m, Some d) \<Rightarrow>
             (let r = \<lparr> dt_year = y, dt_month = m, dt_day = d \<rparr>
              in if valid_date r then Inr r else Inl ValueError)
         | _ \<Rightarrow> Inl ValueError)
      else Inl ValueError)"

text \<open>\<open>time\<close> values compare field by field, the hour first.\<close>

definition time_ge :: "time_of_day \<Rightarrow> time_of_day \<Rightarrow> bool" where
  "time_ge a b \<longleftrightarrow>
     tm_hour a > tm_hour b \<or>
     (tm_hour a = tm_hour b \<and>
        (tm_minute a > tm_minute b \<or>
         (tm_minute a = tm_minute b \<and>
            (tm_second a > tm_second b \<or>
             (tm_second a = tm_second b \<and> tm_microsecond a \<ge> tm_microsecond b)))))"

text \<open>\<open>is_after_six_pm\<close> of helpers.py, on the clock reading it is given or takes.\<close>

definition is_after_six_pm :: "datetime \<Rightarrow> bool" where
  "is_after_six_pm now =
     time_ge (the_time now) \<lparr> tm_hour = 18, tm_minute = 0, tm_second = 0, tm_microsecond = 0 \<rparr>"

section \<open>The conversation context and what a handler sends\<close>

datatype fsm_state =
    Order_waiting_for_delivery_date
  | Order_waiting_for_delivery_time
  | Order_waiting_for_address
  | Order_waiting_for_card_text
  | Order_waiting_for_phone
  | Order_waiting_for_confirmation
  | AdminAdd_waiting_for_photo
  | AdminAdd_waiting_for_name
  | AdminAdd_waiting_for_category
  | AdminAdd_waiting_for_price
  | AdminAdd_waiting_for_description
  | AdminAdd_waiting_for_confirmation
  | AdminCategory_waiting_for_action
  | AdminCategory_waiting_for_name
  | AdminCategory_waiting_for_new_name
  | Support_waiting_for_message

text \<open>
  The data dictionary of a user's \<open>FSMContext\<close>, one optional field for each key the
  handlers store, typed as the handlers store it; \<open>None\<close> is an absent key. The key
  \<open>card_text\<close> is only read with \<open>data.get\<close>, which does not tell an absent key from a
  stored \<open>None\<close>.
\<close>

record data =
  d_product_id :: "int option"
  d_product_price :: "int option"
  d_product_name :: "str option"
  d_category_id :: "int option"
  d_category_page :: "int option"
  d_delivery_date :: "str option"
  d_delivery_time :: "str option"
  d_address :: "str option"
  d_card_text :: "str option"
  d_phone :: "str option"
  d_photo_file_id :: "str option"
  d_name :: "str option"
  d_price :: "int option"
  d_price_from :: "bool option"
  d_description :: "str option"

definition no_data :: data where
  "no_data = \<lparr> d_product_id = None, d_product_price = None, d_product_name = None,
     d_category_id = None, d_category_page = None, d_delivery_date = None,
     d_delivery_time = None, d_address = None, d_card_text = None, d_phone = None,
     d_photo_file_id = None, d_name = None, d_price = None, d_price_from = None,
     d_description = None \<rparr>"

record fsm =
  cur_state :: "fsm_state option"
  cur_data :: data

definition set_state :: "fsm \<Rightarrow> fsm_state \<Rightarrow> fsm" where
  "set_state ctx st = ctx\<lparr>cur_state := Some st\<rparr>"

definition clear :: "fsm \<Rightarrow> fsm" where
  "clear ctx = \<lparr> cur_state = None, cur_data = no_data \<rparr>"

text \<open>\<open>data[key]\<close>: a \<open>KeyError\<close> when the key is absent.\<close>

definition item :: "string \<Rightarrow> 'a option \<Rightarrow> error + 'a" where
  "item key v = (case v of None \<Rightarrow> Inl (KeyError key) | Some x \<Rightarrow> Inr x)"

record user =
  usr_id :: int
  usr_username :: "str option"

record settings =
  bot_token :: str
  admin_ids :: "int list"

text \<open>
  The coordinates of a shared location, as the f-string of \<open>address_location\<close> formats
  the two floats.
\<close>

record location =
  latitude :: str
  longitude :: str

text \<open>
  Button labels and message texts are named, with their parameters, rather than spelled
  out; so are the keyboards whose buttons no property below looks at. The callback
  payloads of the date keyboard are the texts the source builds.
\<close>

datatype label =
    Label_today
  | Label_tomorrow
  | Label_day str
  | Label_cancel_order

record button =
  btn_text :: label
  callback_data :: str

datatype markup =
    InlineKeyboard "button list list"
  | Order_time_kb
  | Card_text_kb
  | Confirmation_kb
  | Main_menu_kb
  | Phone_request_kb
  | Location_request_kb
  | Product_list_action_kb int int int
  | Products_navigation_kb int int bool bool
  | Admin_order_kb int

datatype msg =
    Product_not_found
  | Order_not_found
  | No_rights
  | Status_updated
  | Choose_delivery_date
  | Choose_delivery_time
  | Ask_address
  | Ask_address_details
  | Address_too_short
  | Ask_card
  | Ask_phone
  | Card_preview str
  | Phone_format_hint
  | Order_summary data
  | New_order_notice int user product data
  | Payment_instructions int int
  | Order_accepted_notice int
  | Order_rejected_notice int
  | Products_header str int int
  | Products_navigation
  | Price_retry
  | Ask_description

text \<open>
  A handler returns what it sent and the context (and storage) it leaves, or the exception
  it raised; what a handler had stored before raising is not tracked.
\<close>

text \<open>
  What a handler sends: a message to the chat it answers, a photo card, the answer to a
  button press (with or without an alert), and a message the bot sent to another chat.
\<close>

datatype out =
    Answer msg "markup option"
  | Answer_photo product markup
  | Cb_answer "msg option" bool
  | Sent int msg "markup option"

text \<open>
  \<open>bot.send_message\<close> to a chat succeeds or raises; which it does is the platform's
  business, given as a predicate on chat identities.
\<close>

type_synonym bot = "int \<Rightarrow> bool"

section \<open>keyboards/inline.py\<close>

fun day_buttons :: "date \<Rightarrow> nat list \<Rightarrow> error + button list" where
  "day_buttons today [] = Inr []"
| "day_buttons today (i # is) =
     (case add_days today i of
        Inl e \<Rightarrow> Inl e
      | Inr target \<Rightarrow>
          (case day_buttons today is of
             Inl e \<Rightarrow> Inl e
           | Inr days \<Rightarrow>
               Inr (\<lparr> btn_text = Label_day (strftime_day_month target),
                      callback_data = ascii ''date_selected:'' @ isoformat target \<rparr> # days)))"

text \<open>\<open>[days[i : i + 7] for i in range(0, len(days), 7)]\<close>\<close>

definition rows_of_seven :: "'a list \<Rightarrow> 'a list list" where
  "rows_of_seven days = map (\<lambda>j. take 7 (drop (7 * j) days)) [0 ..< (length days + 6) div 7]"

text \<open>\<open>order_date_kb\<close>; the second argument is what \<open>date.today()\<close> returns.\<close>

definition order_date_kb :: "bool \<Rightarrow> date \<Rightarrow> error + markup" where
  "order_date_kb include_today today =
     (let row = (if include_today
                 then [\<lparr> btn_text = Label_today, callback_data = ascii ''date_selected:today'' \<rparr>]
                 else []) @
                [\<lparr> btn_text = Label_tomorrow, callback_data = ascii ''date_selected:tomorrow'' \<rparr>]
      in case day_buttons today [0 ..< 14] of
           Inl e \<Rightarrow> Inl e
         | Inr days \<Rightarrow>
             Inr (InlineKeyboard ([row] @ rows_of_seven days @
               [[\<lparr> btn_text = Label_cancel_order, callback_data = ascii ''order_cancel'' \<rparr>]])))"

section \<open>utils/notifications.py\<close>

text \<open>Every administrator the bot can reach gets the message; a failed send is skipped.\<close>

definition notify_admins :: "bot \<Rightarrow> int list \<Rightarrow> msg \<Rightarrow> markup option \<Rightarrow> out list" where
  "notify_admins bot' ids text kb = map (\<lambda>admin_id. Sent admin_id text kb) (filter bot' ids)"

section \<open>handlers/catalog.py\<close>

definition PAGE_SIZE :: int where
  "PAGE_SIZE = 5"

text \<open>
  \<open>math.ceil(a / b)\<close> for a row count \<open>a\<close> and positive \<open>b\<close>; the float quotient of the
  source is exact at these magnitudes.
\<close>

definition ceil_div :: "int \<Rightarrow> int \<Rightarrow> int" where
  "ceil_div a b = - ((- a) div b)"

definition DEFAULT_CATEGORY_NAME :: str where
  "DEFAULT_CATEGORY_NAME = [1050, 1072, 1090, 1077, 1075, 1086, 1088, 1080, 1103]"

definition send_products_page :: "database \<Rightarrow> int \<Rightarrow> int \<Rightarrow> error + out list" where
  "send_products_page db category_id page0 =
     (case count_products_in_category db category_id of
        Inl e \<Rightarrow> Inl e
      | Inr total_products \<Rightarrow>
          let total_pages = max 1 (ceil_div total_products PAGE_SIZE);
              page = min (max 1 page0) total_pages;
              offset = (page - 1) * PAGE_SIZE
          in case get_products_by_category db category_id PAGE_SIZE offset of
               Inl e \<Rightarrow> Inl e
             | Inr prods \<Rightarrow>
                 (case get_categories db of
                    Inl e \<Rightarrow> Inl e
                  | Inr cats \<Rightarrow>
                      let category_name =
                            (case find (\<lambda>c. cat_id c = category_id) cats of
                               Some c \<Rightarrow> cat_name c
                             | None \<Rightarrow> DEFAULT_CATEGORY_NAME);
                          has_prev = page > 1;
                          has_next = page < total_pages
                      in Inr ([Answer (Products_header category_name page total_pages) None] @
                              map (\<lambda>p. Answer_photo p
                                     (Product_list_action_kb (prod_id p) category_id page)) prods @
                              [Answer Products_navigation
                                 (Some (Products_navigation_kb category_id page has_prev has_next))])))"

text \<open>
  \<open>order_start\<close>, on the three integers its payload
  \<open>order_start:<product>:<category>:<page>\<close> carries; \<open>now\<close> is the clock reading
  behind \<open>is_after_six_pm()\<close> and \<open>date.today()\<close>.
\<close>

definition order_start ::
  "database \<Rightarrow> fsm \<Rightarrow> int \<Rightarrow> int \<Rightarrow> int \<Rightarrow> datetime \<Rightarrow> error + out list \<times> fsm"
where
  "order_start db ctx product_id category_id page now =
     (case get_product db product_id of
        Inl e \<Rightarrow> Inl e
      | Inr None \<Rightarrow> Inr ([Cb_answer (Some Product_not_found) True], ctx)
      | Inr (Some product) \<Rightarrow>
          let ctx1 = ctx\<lparr>cur_data := (cur_data ctx)\<lparr>
                d_product_id := Some product_id,
                d_product_price := Some (prod_price product),
                d_product_name := Some (prod_name product),
                d_category_id := Some category_id,
                d_category_page := Some page\<rparr>\<rparr>;
              include_today = \<not> is_after_six_pm now
          in case order_date_kb include_today (the_date now) of
               Inl e \<Rightarrow> Inl e
             | Inr kb \<Rightarrow>
                 Inr ([Answer Choose_delivery_date (Some kb), Cb_answer None False],
                      set_state ctx1 Order_waiting_for_delivery_date))"

section \<open>handlers/orders.py\<close>

text \<open>\<open>cb.data.split(":", 1)[1]\<close>: the text after the first colon.\<close>

definition after_colon :: "str \<Rightarrow> error + str" where
  "after_colon s = (if 58 \<in> set s then Inr (tl (dropWhile (\<lambda>c. c \<noteq> 58) s)) else Inl IndexError)"

definition selected_date :: "str \<Rightarrow> date \<Rightarrow> error + date" where
  "selected_date v today =
     (if v = ascii ''today'' then Inr today
      else if v = ascii ''tomorrow'' then add_days today 1
      else fromisoformat v)"

definition date_selected :: "fsm \<Rightarrow> str \<Rightarrow> date \<Rightarrow> error + out list \<times> fsm" where
  "date_selected ctx cb_data today =
     (case after_colon cb_data of
        Inl e \<Rightarrow> Inl e
      | Inr v \<Rightarrow>
          (case selected_date v today of
             Inl e \<Rightarrow> Inl e
           | Inr selected \<Rightarrow>
               Inr ([Answer Choose_delivery_time (Some Order_time_kb), Cb_answer None False],
                    set_state (ctx\<lparr>cur_data := (cur_data ctx)\<lparr>
                      d_delivery_date := Some (isoformat selected)\<rparr>\<rparr>)
                      Order_waiting_for_delivery_time)))"

definition time_selected :: "fsm \<Rightarrow> str \<Rightarrow> error + out list \<times> fsm" where
  "time_selected ctx cb_data =
     (case after_colon cb_data of
        Inl e \<Rightarrow> Inl e
      | Inr slot \<Rightarrow>
          Inr ([Answer Ask_address (Some Location_request_kb), Cb_answer None False],
               set_state (ctx\<lparr>cur_data := (cur_data ctx)\<lparr>d_delivery_time := Some slot\<rparr>\<rparr>)
                 Order_waiting_for_address))"

definition address_location :: "fsm \<Rightarrow> location \<Rightarrow> out list \<times> fsm" where
  "address_location ctx loc =
     (let address_text = ascii ''geo:'' @ latitude loc @ ascii '','' @ longitude loc
      in ([Answer Ask_address_details None],
          ctx\<lparr>cur_data := (cur_data ctx)\<lparr>d_address := Some address_text\<rparr>\<rparr>))"

definition address_text :: "fsm \<Rightarrow> str \<Rightarrow> out list \<times> fsm" where
  "address_text ctx text =
     (if length (strip text) < 10 then ([Answer Address_too_short None], ctx)
      else ([Answer Ask_card (Some Card_text_kb)],
            set_state (ctx\<lparr>cur_data := (cur_data ctx)\<lparr>d_address := Some (strip text)\<rparr>\<rparr>)
              Order_waiting_for_card_text))"

definition ask_phone :: "fsm \<Rightarrow> out list \<times> fsm" where
  "ask_phone ctx =
     ([Answer Ask_phone (Some Phone_request_kb)], set_state ctx Order_waiting_for_phone)"

definition card_skip :: "fsm \<Rightarrow> out list \<times> fsm" where
  "card_skip ctx =
     (let (outs, ctx1) = ask_phone (ctx\<lparr>cur_data := (cur_data ctx)\<lparr>d_card_text := None\<rparr>\<rparr>)
      in (outs @ [Cb_answer None False], ctx1))"

definition card_text :: "fsm \<Rightarrow> str \<Rightarrow> out list \<times> fsm" where
  "card_text ctx message_text =
     (let text = normalize_card_text message_text;
          (outs, ctx1) = ask_phone (ctx\<lparr>cur_data := (cur_data ctx)\<lparr>d_card_text := Some text\<rparr>\<rparr>)
      in (Answer (Card_preview text) None # outs, ctx1))"

definition show_summary :: "fsm \<Rightarrow> out list \<times> fsm" where
  "show_summary ctx =
     ([Answer (Order_summary (cur_data ctx)) (Some Confirmation_kb)],
      set_state ctx Order_waiting_for_confirmation)"

definition phone_contact :: "fsm \<Rightarrow> str \<Rightarrow> out list \<times> fsm" where
  "phone_contact ctx phone_number =
     show_summary (ctx\<lparr>cur_data := (cur_data ctx)\<lparr>d_phone := Some phone_number\<rparr>\<rparr>)"

definition phone_text :: "ucd \<Rightarrow> fsm \<Rightarrow> str \<Rightarrow> out list \<times> fsm" where
  "phone_text u ctx text =
     (let phone = strip text
      in if \<not> is_phone_valid u phone then ([Answer Phone_format_hint None], ctx)
         else show_summary (ctx\<lparr>cur_data := (cur_data ctx)\<lparr>d_phone := Some phone\<rparr>\<rparr>))"

text \<open>\<open>order_confirm\<close>; \<open>now\<close> is the engine's clock reading at the insert.\<close>

definition order_confirm ::
  "database \<Rightarrow> fsm \<Rightarrow> user \<Rightarrow> settings \<Rightarrow> bot \<Rightarrow> timestamp \<Rightarrow> error + out list \<times> fsm \<times> database"
where
  "order_confirm db ctx from_user cfg bot' now =
     (let data = cur_data ctx in
      case item ''product_id'' (d_product_id data) of
        Inl e \<Rightarrow> Inl e
      | Inr product_id \<Rightarrow>
      case get_product db product_id of
        Inl e \<Rightarrow> Inl e
      | Inr None \<Rightarrow> Inr ([Cb_answer (Some Product_not_found) True], ctx, db)
      | Inr (Some product) \<Rightarrow>
      case item ''delivery_date'' (d_delivery_date data) of
        Inl e \<Rightarrow> Inl e
      | Inr delivery_date \<Rightarrow>
      case item ''delivery_time'' (d_delivery_time data) of
        Inl e \<Rightarrow> Inl e
      | Inr delivery_time \<Rightarrow>
      case item ''address'' (d_address data) of
        Inl e \<Rightarrow> Inl e
      | Inr address \<Rightarrow>
      case item ''phone'' (d_phone data) of
        Inl e \<Rightarrow> Inl e
      | Inr phone \<Rightarrow>
      case create_order db (usr_id from_user) (usr_username from_user) product_id
             (prod_price product) delivery_date delivery_time address (d_card_text data) phone
             STATUS_NEW now of
        Inl e \<Rightarrow> Inl e
      | Inr (order_id, db1) \<Rightarrow>
          Inr (notify_admins bot' (admin_ids cfg)
                 (New_order_notice order_id from_user product data)
                 (Some (Admin_order_kb order_id)) @
               [Answer (Payment_instructions order_id (prod_price product)) (Some Main_menu_kb),
                Cb_answer None False],
               clear ctx, db1))"

definition ensure_admin :: "int \<Rightarrow> settings \<Rightarrow> bool" where
  "ensure_admin user_id cfg \<longleftrightarrow> user_id \<in> set (admin_ids cfg)"

text \<open>
  The two moderation handlers, on the order id their payload carries. The notification
  to the customer sits in a \<open>try\<close> whose \<open>except\<close> passes.
\<close>

definition admin_order_accept ::
  "database \<Rightarrow> settings \<Rightarrow> bot \<Rightarrow> user \<Rightarrow> int \<Rightarrow> error + out list \<times> database"
where
  "admin_order_accept db cfg bot' from_user order_id =
     (if \<not> ensure_admin (usr_id from_user) cfg then Inr ([Cb_answer (Some No_rights) True], db)
      else
        case get_order db order_id of
          Inl e \<Rightarrow> Inl e
        | Inr None \<Rightarrow> Inr ([Cb_answer (Some Order_not_found) True], db)
        | Inr (Some ord) \<Rightarrow>
            (case update_order_status db order_id STATUS_IN_WORK of
               Inl e \<Rightarrow> Inl e
             | Inr db1 \<Rightarrow>
                 Inr ((if bot' (ord_user_id ord)
                       then [Sent (ord_user_id ord) (Order_accepted_notice order_id) None]
                       else []) @
                      [Cb_answer (Some Status_updated) False], db1)))"

definition admin_order_reject ::
  "database \<Rightarrow> settings \<Rightarrow> bot \<Rightarrow> user \<Rightarrow> int \<Rightarrow> error + out list \<times> database"
where
  "admin_order_reject db cfg bot' from_user order_id =
     (if \<not> ensure_admin (usr_id from_user) cfg then Inr ([Cb_answer (Some No_rights) True], db)
      else
        case get_order db order_id of
          Inl e \<Rightarrow> Inl e
        | Inr None \<Rightarrow> Inr ([Cb_answer (Some Order_not_found) True], db)
        | Inr (Some ord) \<Rightarrow>
            (case update_order_status db order_id STATUS_CANCELLED of
               Inl e \<Rightarrow> Inl e
             | Inr db1 \<Rightarrow>
                 Inr ((if bot' (ord_user_id ord)
                       then [Sent (ord_user_id ord) (Order_rejected_notice order_id) None]
                       else []) @
                      [Cb_answer (Some Status_updated) False], db1)))"

section \<open>handlers/admin.py\<close>






section \<open>A shop to run the handlers on\<close>

text \<open>
  A fresh file, connected and seeded by \<open>create_schema\<close>; then one product in the first
  category; then one order for it.
\<close>

definition fresh_shop :: database where
  "fresh_shop =
     (case create_schema (connect (Database (ascii ''bot.db'')) empty_file) 0 of
        Inr db \<Rightarrow> db
      | Inl e \<Rightarrow> Database [])"

definition shop_with_product :: database where
  "shop_with_product =
     (case add_product fresh_shop 1 (ascii ''Red roses'') 1800000 False (ascii ''25 roses'')
             (ascii ''photo-1'') True 100 of
        Inr (i, db) \<Rightarrow> db
      | Inl e \<Rightarrow> fresh_shop)"

definition shop_with_order :: database where
  "shop_with_order =
     (case create_order shop_with_product 777 (Some (ascii ''anna'')) 1 1800000
             (ascii ''2024-06-16'') (ascii ''12:00-15:00'') (ascii ''123 Main Street Apt 4'')
             None (ascii ''0912345678'') STATUS_NEW 200 of
        Inr (i, db) \<Rightarrow> db
      | Inl e \<Rightarrow> shop_with_product)"

text \<open>
  A customer's dialogue on that shop: the order is started on a Saturday at 18:30, then
  come tomorrow's date, a time window, an address, no card, and a phone number.
\<close>

definition saturday_evening :: datetime where
  "saturday_evening =
     \<lparr> the_date = \<lparr> dt_year = 2024, dt_month = 6, dt_day = 15 \<rparr>,
       the_time = \<lparr> tm_hour = 18, tm_minute = 30, tm_second = 0, tm_microsecond = 0 \<rparr> \<rparr>"

definition idle :: fsm where
  "idle = \<lparr> cur_state = None, cur_data = no_data \<rparr>"

definition ctx_started :: fsm where
  "ctx_started =
     (case order_start shop_with_product idle 1 1 1 saturday_evening of
        Inr (outs, ctx) \<Rightarrow> ctx
      | Inl e \<Rightarrow> idle)"

definition ctx_dated :: fsm where
  "ctx_dated =
     (case date_selected ctx_started (ascii ''date_selected:tomorrow'') (the_date saturday_evening) of
        Inr (outs, ctx) \<Rightarrow> ctx
      | Inl e \<Rightarrow> idle)"

definition ctx_timed :: fsm where
  "ctx_timed =
     (case time_selected ctx_dated (ascii ''time_selected:12:00-15:00'') of
        Inr (outs, ctx) \<Rightarrow> ctx
      | Inl e \<Rightarrow> idle)"

definition ctx_filled :: fsm where
  "ctx_filled =
     snd (phone_text ucd_basic
            (snd (card_skip (snd (address_text ctx_timed (ascii ''123 Main Street Apt 4'')))))
            (ascii ''0912345678''))"

text \<open>The shop after the price of the product has been raised in the meantime.\<close>

definition shop_repriced :: database where
  "shop_repriced =
     (case update_product shop_with_product 1 [Set_price 2000000] of
        Inr db \<Rightarrow> db
      | Inl e \<Rightarrow> shop_with_product)"

definition anna :: user where
  "anna = \<lparr> usr_id = 777, usr_username = Some (ascii ''anna'') \<rparr>"

definition shop_settings :: settings where
  "shop_settings = \<lparr> bot_token = ascii ''token'', admin_ids = [1, 2, 3] \<rparr>"

section \<open>The dates a date keyboard offers\<close>

text \<open>The button \<open>order_date_kb\<close> builds for the day \<open>i\<close> days after today.\<close>

definition day_button :: "date \<Rightarrow> nat \<Rightarrow> button" where
  "day_button today i =
     \<lparr> btn_text = Label_day (strftime_day_month ((next_day ^^ i) today)),
       callback_data = ascii ''date_selected:'' @ isoformat ((next_day ^^ i) today) \<rparr>"

text \<open>
  The delivery date a button stands for: the date \<open>date_selected\<close> stores when the button
  is pressed, for the buttons its filter lets through.
\<close>

definition resolve_button :: "date \<Rightarrow> button \<Rightarrow> date list" where
  "resolve_button today b =
     (if startswith (callback_data b) (ascii ''date_selected:'') then
        (case after_colon (callback_data b) of
           Inl e \<Rightarrow> []
         | Inr v \<Rightarrow> (case selected_date v today of Inl e \<Rightarrow> [] | Inr d \<Rightarrow> [d]))
      else [])"

definition offered_dates :: "markup \<Rightarrow> date \<Rightarrow> date list" where
  "offered_dates kb today =
     (case kb of
        InlineKeyboard rows \<Rightarrow> concat (map (resolve_button today) (concat rows))
      | _ \<Rightarrow> [])"

text \<open>The keyboard without the today button, for the day of the dialogue above.\<close>

definition evening_kb :: markup where
  "evening_kb =
     InlineKeyboard
       ([[\<lparr> btn_text = Label_tomorrow, callback_data = ascii ''date_selected:tomorrow'' \<rparr>]] @
        rows_of_seven (map (day_button (the_date saturday_evening)) [0 ..< 14]) @
        [[\<lparr> btn_text = Label_cancel_order, callback_data = ascii ''order_cancel'' \<rparr>]])"

text \<open>The rows of that shop: the seeded categories and the product.\<close>

definition seeded :: "category list" where
  "seeded = map (\<lambda>(i, n). \<lparr> cat_id = i, cat_name = n, cat_created_at = 0 \<rparr>)
                    (zip [1, 2, 3, 4, 5, 6] DEFAULT_CATEGORIES)"

definition roses :: product where
  "roses =
     \<lparr> prod_id = 1, prod_category_id = 1, prod_name = ascii ''Red roses'',
         prod_price = 1800000, prod_price_from = False, prod_description = ascii ''25 roses'',
         prod_photo_file_id = ascii ''photo-1'', prod_is_active = True, prod_created_at = 100 \<rparr>"

text \<open>The order placed in that shop.\<close>

definition annas_order :: order where
  "annas_order =
     \<lparr> ord_id = 1, ord_user_id = 777, ord_username = Some (ascii ''anna''), ord_product_id = 1,
       ord_price = 1800000, ord_delivery_date = ascii ''2024-06-16'',
       ord_delivery_time = ascii ''12:00-15:00'', ord_address = ascii ''123 Main Street Apt 4'',
       ord_card_text = None, ord_phone = ascii ''0912345678'', ord_status = STATUS_NEW,
       ord_created_at = 200 \<rparr>"

text \<open>
  In the address step of the dialogue, the customer shares a location and then sends the
  supplementary line the bot asks for.
\<close>

definition nha_trang :: location where
  "nha_trang = \<lparr> latitude = ascii ''12.2388'', longitude = ascii ''109.1967'' \<rparr>"

definition ctx_located :: fsm where
  "ctx_located = snd (address_location ctx_timed nha_trang)"

definition ctx_addressed :: fsm where
  "ctx_addressed = snd (address_text ctx_located (ascii ''Apartment 12, floor 3''))"



text \<open>
  A shop with twelve active bouquets in the first category, added one a second, and one
  more that is not active.
\<close>

fun add_bouquets :: "database \<Rightarrow> nat list \<Rightarrow> database" where
  "add_bouquets db [] = db"
| "add_bouquets db (i # is) =
     (case add_product db 1 (ascii ''Bouquet'') (100000 * int i) False (ascii ''Flowers'')
             (ascii ''photo'') True i of
        Inr (k, db') \<Rightarrow> add_bouquets db' is
      | Inl e \<Rightarrow> db)"

definition shop_with_dozen :: database where
  "shop_with_dozen =
     (case add_product (add_bouquets fresh_shop [1, 2, 3, 4, 5, 6, 7, 8, 9, 10, 11, 12]) 1
             (ascii ''Withdrawn'') 5 False (ascii ''Flowers'') (ascii ''photo'') False 13 of
        Inr (k, db) \<Rightarrow> db
      | Inl e \<Rightarrow> fresh_shop)"

section \<open>Sequences of category operations\<close>

text \<open>
  The storage operations that write the categories table, and a run of them against the
  storage. An operation that raises leaves the storage as it was: its statement is not
  applied, and \<open>create_schema\<close> raises only before it has touched anything.
\<close>

datatype category_op =
    Add_category str timestamp
  | Rename_category int str
  | Delete_category int
  | Create_schema timestamp

fun category_step :: "database \<Rightarrow> category_op \<Rightarrow> database" where
  "category_step db (Add_category name now) =
     (case add_category db name now of Inl e \<Rightarrow> db | Inr (i, db') \<Rightarrow> db')"
| "category_step db (Rename_category category_id new_name) =
     (case rename_category db category_id new_name of Inl e \<Rightarrow> db | Inr db' \<Rightarrow> db')"
| "category_step db (Delete_category category_id) =
     (case delete_category db category_id of Inl e \<Rightarrow> db | Inr db' \<Rightarrow> db')"
| "category_step db (Create_schema now) =
     (case create_schema db now of Inl e \<Rightarrow> db | Inr db' \<Rightarrow> db')"

definition category_steps :: "database \<Rightarrow> category_op list \<Rightarrow> database" where
  "category_steps db ops = fold (\<lambda>op d. category_step d op) ops db"

definition category_rows :: "database \<Rightarrow> category list" where
  "category_rows db = (case conn db of None \<Rightarrow> [] | Some t \<Rightarrow> categories t)"

text \<open>The constraints of the categories table: the primary key and the unique name.\<close>

definition categories_ok :: "database \<Rightarrow> bool" where
  "categories_ok db \<longleftrightarrow>
     distinct (map cat_id (category_rows db)) \<and> distinct (map cat_name (category_rows db))"

section \<open>Properties of the text functions\<close>

lemma isspace_newline: "isspace 10"
  by (simp add: isspace_def)

lemma no_trailing_space_drop: "no_trailing_space s \<Longrightarrow> no_trailing_space (drop n s)"
  by (auto simp: no_trailing_space_def)

lemma no_trailing_space_tl: "no_trailing_space (c # cs) \<Longrightarrow> no_trailing_space cs"
  by (auto simp: no_trailing_space_def split: if_splits)

lemma strip_no_trailing_space: "no_trailing_space (strip s)"
proof -
  let ?t = "dropWhile isspace (rev (dropWhile isspace s))"
  show ?thesis
  proof (cases "?t = []")
    case True
    then show ?thesis by (simp add: no_trailing_space_def strip_def)
  next
    case False
    then have "\<not> isspace (hd ?t)" by (rule hd_dropWhile)
    with False show ?thesis by (simp add: no_trailing_space_def strip_def last_rev)
  qed
qed

lemma dropWhile_rev_dropWhile:
  "dropWhile P (rev (dropWhile P (rev (dropWhile P s)))) = rev (dropWhile P (rev (dropWhile P s)))"
proof (cases "dropWhile P s")
  case Nil
  then show ?thesis by (simp del: dropWhile_eq_Nil_conv)
next
  case (Cons c cs)
  then have c: "\<not> P c" using hd_dropWhile[of P s] by simp
  have "rev (dropWhile P (rev (c # cs))) = c # rev (dropWhile P (rev cs))"
    using c by (simp add: dropWhile_append)
  with c Cons show ?thesis by simp
qed

lemma strip_strip: "strip (strip s) = strip s"
  unfolding strip_def by (simp only: dropWhile_rev_dropWhile rev_rev_ident dropWhile_idem)

section \<open>Properties of the pattern matcher\<close>

lemma re_match_rep_step:
  "re_match u b (Rep a lo (Suc hi) # r) s \<longleftrightarrow>
     (lo = 0 \<and> re_match u b r s) \<or>
     (\<exists>c cs. s = c # cs \<and> cls_match u a c \<and> re_match u False (Rep a (lo - 1) hi # r) cs)"
  by (cases s) simp_all

lemma re_match_rep:
  "lo \<le> hi \<Longrightarrow>
   re_match u b (Rep a lo hi # r) s \<longleftrightarrow>
     (\<exists>k. lo \<le> k \<and> k \<le> hi \<and> k \<le> length s \<and> list_all (cls_match u a) (take k s) \<and>
          re_match u (b \<and> k = 0) r (drop k s))"
proof (induction hi arbitrary: lo s b)
  case 0
  then show ?case by simp
next
  case (Suc hi)
  have ih: "\<And>s b. re_match u b (Rep a (lo - 1) hi # r) s \<longleftrightarrow>
     (\<exists>k. lo - 1 \<le> k \<and> k \<le> hi \<and> k \<le> length s \<and> list_all (cls_match u a) (take k s) \<and>
          re_match u (b \<and> k = 0) r (drop k s))"
    using Suc.prems by (intro Suc.IH) simp
  show ?case (is "?L = ?R")
  proof
    assume ?L
    then consider "lo = 0" "re_match u b r s"
      | c cs where "s = c # cs" "cls_match u a c" "re_match u False (Rep a (lo - 1) hi # r) cs"
      unfolding re_match_rep_step by blast
    then show ?R
    proof cases
      case 1
      then show ?thesis by (intro exI[of _ 0]) simp
    next
      case 2
      from 2(3) obtain k where k: "lo - 1 \<le> k" "k \<le> hi" "k \<le> length cs"
        "list_all (cls_match u a) (take k cs)" "re_match u False r (drop k cs)"
        unfolding ih by auto
      show ?thesis using 2(1,2) k by (intro exI[of _ "Suc k"]) auto
    qed
  next
    assume ?R
    then obtain k where k: "lo \<le> k" "k \<le> Suc hi" "k \<le> length s"
      "list_all (cls_match u a) (take k s)" "re_match u (b \<and> k = 0) r (drop k s)" by blast
    show ?L
    proof (cases k)
      case 0
      with k show ?thesis unfolding re_match_rep_step by simp
    next
      case (Suc k')
      with k obtain c cs where s: "s = c # cs" by (cases s) auto
      have "re_match u False (Rep a (lo - 1) hi # r) cs"
        unfolding ih using k Suc s by (intro exI[of _ k']) auto
      with k Suc s show ?thesis unfolding re_match_rep_step by simp
    qed
  qed
qed

lemma re_match_exact:
  "re_match u b (Rep a n n # r) s \<longleftrightarrow>
     n \<le> length s \<and> list_all (cls_match u a) (take n s) \<and> re_match u (b \<and> n = 0) r (drop n s)"
  by (subst re_match_rep) auto

lemma eol_no_trailing_space:
  "no_trailing_space s \<Longrightarrow> (s = [] \<or> s = [10]) \<longleftrightarrow> s = []"
  using isspace_newline by (auto simp: no_trailing_space_def)

lemma isdecimal_cls: "cls_match u Dec = isdecimal u"
  by (rule ext) simp

lemma last_group: "agrees u [Rep Dec 4 4, Eol] (\<lambda>t. length t = 4 \<and> digits u t)"
  unfolding agrees_def
proof (intro allI impI)
  fix s b assume "no_trailing_space s"
  then have "no_trailing_space (drop 4 s)" by (rule no_trailing_space_drop)
  then have "(drop 4 s = [] \<or> drop 4 s = [10]) \<longleftrightarrow> drop 4 s = []"
    by (rule eol_no_trailing_space)
  then show "re_match u b [Rep Dec 4 4, Eol] s \<longleftrightarrow> length s = 4 \<and> digits u s"
    unfolding re_match_exact isdecimal_cls digits_def by auto
qed

lemma group_step:
  assumes "agrees u r k"
  shows "agrees u (Rep Dec n n # r) (group u n k)"
  unfolding agrees_def re_match_exact group_def isdecimal_cls digits_def
  using assms no_trailing_space_drop by (auto simp: agrees_def)

lemma opt_step:
  assumes "agrees u r k"
  shows "agrees u (Rep Spc 0 1 # r) (opt_sep isspace k)"
  unfolding agrees_def
proof (intro allI impI)
  fix s b assume s: "no_trailing_space s"
  show "re_match u b (Rep Spc 0 1 # r) s = opt_sep isspace k s"
  proof (cases s)
    case Nil
    then show ?thesis using assms s by (simp add: opt_sep_def agrees_def)
  next
    case (Cons c cs)
    then have "no_trailing_space cs" using s no_trailing_space_tl by blast
    then show ?thesis using assms Cons s by (simp add: opt_sep_def agrees_def)
  qed
qed

lemma grouped_shape:
  assumes "no_trailing_space s"
  shows "re_match u True PAT_GROUPED s = shape_grouped isspace u s"
proof -
  have g: "agrees u [Rep Dec 2 2, Rep Spc 0 1, Rep Dec 3 3, Rep Spc 0 1,
                  Rep Dec 3 3, Rep Spc 0 1, Rep Dec 4 4, Eol]
     (group u 2 (opt_sep isspace (group u 3 (opt_sep isspace (group u 3 (opt_sep isspace
            (\<lambda>t. length t = 4 \<and> digits u t)))))))"
    by (intro group_step opt_step last_group)
  show ?thesis
  proof (cases s)
    case Nil
    then show ?thesis by (simp add: PAT_GROUPED_def shape_grouped_def)
  next
    case (Cons c cs)
    then have "no_trailing_space cs" using assms no_trailing_space_tl by blast
    with g show ?thesis using Cons
      by (simp add: PAT_GROUPED_def shape_grouped_def agrees_def)
  qed
qed

lemma plus_shape:
  assumes "no_trailing_space s"
  shows "re_match u True PAT_PLUS s = shape_plus u s"
proof (cases s)
  case Nil
  then show ?thesis by (simp add: PAT_PLUS_def shape_plus_def)
next
  case (Cons c cs)
  then have n: "no_trailing_space cs" using assms no_trailing_space_tl by blast
  have e: "\<And>k. drop k cs \<noteq> [10]"
    using eol_no_trailing_space[OF no_trailing_space_drop[OF n]] by (metis list.distinct(1))
  have "re_match u False [Rep Dec 9 15, Eol] cs \<longleftrightarrow> 9 \<le> length cs \<and> length cs \<le> 15 \<and> digits u cs"
    unfolding digits_def by (subst re_match_rep) (auto simp: e isdecimal_cls)
  then show ?thesis using Cons by (simp add: PAT_PLUS_def shape_plus_def)
qed

lemma ascii_digit_decimal:
  assumes "ucd_ok u" and "48 \<le> c" and "c \<le> 57"
  shows "ucd_decimal u c = Some (c - 48)"
proof -
  have "\<forall>d\<in>set [0 ..< 10]. ucd_decimal u (48 + d) = Some d"
    using assms(1) unfolding ucd_ok_def list_all_iff by blast
  moreover have "c - 48 \<in> set [0 ..< 10]" using assms(2,3) by auto
  ultimately have "ucd_decimal u (48 + (c - 48)) = Some (c - 48)" by blast
  then show ?thesis using assms(2) by simp
qed

lemma local_shape:
  assumes "no_trailing_space s" and "ucd_ok u"
  shows "re_match u True PAT_LOCAL s = shape_local u s"
proof (cases s)
  case Nil
  then show ?thesis by (simp add: PAT_LOCAL_def shape_local_def)
next
  case (Cons c cs)
  then have n: "no_trailing_space cs" using assms no_trailing_space_tl by blast
  have z: "isdecimal u 48" using ascii_digit_decimal[OF assms(2), of 48] by (simp add: isdecimal_def)
  have e: "(drop 9 cs = [] \<or> drop 9 cs = [10]) \<longleftrightarrow> drop 9 cs = []"
    using eol_no_trailing_space[OF no_trailing_space_drop[OF n]] by blast
  have "re_match u False [Rep Dec 9 9, Eol] cs \<longleftrightarrow> length cs = 9 \<and> digits u cs"
    unfolding re_match_exact isdecimal_cls digits_def using e by auto
  then show ?thesis using Cons z by (auto simp: PAT_LOCAL_def shape_local_def digits_def)
qed

lemma is_phone_valid_iff:
  assumes "ucd_ok u"
  shows "is_phone_valid u s \<longleftrightarrow> phone_shapes isspace u (strip s)"
  using grouped_shape[OF strip_no_trailing_space] local_shape[OF strip_no_trailing_space assms]
    plus_shape[OF strip_no_trailing_space]
  by (simp add: is_phone_valid_def phone_shapes_def Let_def)

lemma ucd_basic_ok: "ucd_ok ucd_basic"
  by (auto simp: ucd_ok_def ucd_basic_def isspace_def upt_conv_Cons)

lemma ascii_digit_isdecimal: "ucd_ok u \<Longrightarrow> 48 \<le> c \<Longrightarrow> c \<le> 57 \<Longrightarrow> isdecimal u c"
  using ascii_digit_decimal[of u c] by (simp add: isdecimal_def)

section \<open>Phone validation\<close>

text \<open>
  C6, as stated: phone validation accepts exactly the texts of one of the three shapes, the
  groups of the first shape separated by optional single spaces. The code strips the text
  first and its separator class \<open>\s\<close> takes any whitespace character, so a number whose
  groups are separated by tabs is accepted, and so is a local number after a leading
  space, though neither has one of the three shapes as stated.
\<close>

theorem phone_shapes_stated_counterexample:
  "is_phone_valid ucd_basic [43, 56, 52, 9, 57, 49, 50, 9, 51, 52, 53, 9, 54, 55, 56, 57] \<and>
   \<not> phone_shapes is_space_char ucd_basic
        [43, 56, 52, 9, 57, 49, 50, 9, 51, 52, 53, 9, 54, 55, 56, 57] \<and>
   is_phone_valid ucd_basic (ascii '' 0912345678'') \<and>
   \<not> phone_shapes is_space_char ucd_basic (ascii '' 0912345678'')"
  by (simp add: is_phone_valid_def PAT_GROUPED_def PAT_LOCAL_def PAT_PLUS_def
      phone_shapes_def shape_grouped_def shape_local_def is_space_char_def
      shape_plus_def group_def opt_sep_def digits_def ascii_def strip_def isspace_def
      ucd_basic_def isdecimal_def)

text \<open>
  C6, amended: phone validation accepts exactly the texts that, once leading and trailing
  whitespace is removed, have one of the three shapes, where the optional separator
  between the groups of the first shape is any single whitespace character. It accepts
  \<open>+84 912 345 6789\<close>, \<open>0912345678\<close> and \<open>+123456789\<close> and rejects \<open>12345\<close> and
  \<open>abc\<close>.
\<close>

theorem is_phone_valid_shapes:
  assumes "ucd_ok u"
  shows "(is_phone_valid u s \<longleftrightarrow> phone_shapes isspace u (strip s)) \<and>
         is_phone_valid u (ascii ''+84 912 345 6789'') \<and>
         is_phone_valid u (ascii ''0912345678'') \<and>
         is_phone_valid u (ascii ''+123456789'') \<and>
         \<not> is_phone_valid u (ascii ''12345'') \<and>
         \<not> is_phone_valid u (ascii ''abc'')"
proof -
  note d = ascii_digit_isdecimal[OF assms]
  note ev = is_phone_valid_iff[OF assms] phone_shapes_def shape_grouped_def shape_local_def
    shape_plus_def group_def opt_sep_def digits_def ascii_def strip_def isspace_def
  have 1: "is_phone_valid u (ascii ''+84 912 345 6789'')" by (simp add: ev d)
  have 2: "is_phone_valid u (ascii ''0912345678'')" by (simp add: ev d)
  have 3: "is_phone_valid u (ascii ''+123456789'')" by (simp add: ev d)
  have 4: "\<not> is_phone_valid u (ascii ''12345'')" by (simp add: ev)
  have 5: "\<not> is_phone_valid u (ascii ''abc'')" by (simp add: ev)
  show ?thesis using is_phone_valid_iff[OF assms] 1 2 3 4 5 by blast
qed

theorem is_phone_valid_shapes_witness:
  "ucd_ok ucd_basic \<and>
   phone_shapes isspace ucd_basic (strip (ascii '' 0912345678 '')) \<and>
   is_phone_valid ucd_basic (ascii '' 0912345678 '') \<and>
   is_phone_valid ucd_basic (ascii ''+84 912 345 6789'') \<and>
   \<not> is_phone_valid ucd_basic (ascii ''abc'')"
proof -
  have s: "phone_shapes isspace ucd_basic (strip (ascii '' 0912345678 ''))"
    by (simp add: phone_shapes_def shape_grouped_def shape_local_def shape_plus_def group_def
        opt_sep_def digits_def ascii_def strip_def isspace_def ucd_basic_def isdecimal_def)
  show ?thesis
    using is_phone_valid_shapes[OF ucd_basic_ok, of "ascii '' 0912345678 ''"] s ucd_basic_ok
    by blast
qed

text \<open>
  C10: surrounding whitespace never changes the verdict: validating a text and validating
  the text with its leading and trailing whitespace removed give the same answer.
\<close>

theorem is_phone_valid_strip: "is_phone_valid u (strip s) = is_phone_valid u s"
  by (simp add: is_phone_valid_def strip_strip)

theorem is_phone_valid_strip_witness:
  "strip (ascii ''  +123456789 '') = ascii ''+123456789'' \<and>
   is_phone_valid ucd_basic (ascii ''  +123456789 '') =
     is_phone_valid ucd_basic (ascii ''+123456789'')"
proof -
  have "strip (ascii ''  +123456789 '') = ascii ''+123456789''"
    by (simp add: strip_def ascii_def isspace_def)
  then show ?thesis
    using is_phone_valid_strip[of ucd_basic "ascii ''  +123456789 ''"] by simp
qed

section \<open>The storage layer before the connection is established\<close>

lemma execute_not_connected: "conn db = None \<Longrightarrow> execute db = Inl AttributeError"
  by (simp add: execute_def)

text \<open>
  C3, amended: called before the connection is established, \<open>create_schema\<close> fails with
  the not-initialized error; \<open>update_product\<close> with no field to set returns normally
  without touching the storage; every other storage operation fails.
\<close>

theorem not_connected:
  assumes "conn db = None"
  shows "create_schema db now = Inl NOT_INITIALIZED \<and>
         update_product db product_id [] = Inr db \<and>
         (kwargs \<noteq> [] \<longrightarrow> isl (update_product db product_id kwargs)) \<and>
         isl (add_category db name now) \<and>
         isl (rename_category db category_id name) \<and>
         isl (delete_category db category_id) \<and>
         isl (get_categories db) \<and>
         isl (add_product db category_id name price price_from description photo is_active now) \<and>
         isl (delete_product db product_id) \<and>
         isl (get_products_by_category db category_id limit offset) \<and>
         isl (count_products_in_category db category_id) \<and>
         isl (get_product db product_id) \<and>
         isl (create_order db user_id username product_id price delivery_date delivery_time
                address card_note phone status now) \<and>
         isl (update_order_status db order_id status) \<and>
         isl (get_user_orders db user_id limit) \<and>
         isl (get_last_completed_orders db user_id limit) \<and>
         isl (get_order db order_id) \<and>
         isl (save_support_message db user_id username text now)"
  using assms execute_not_connected[OF assms]
  by (simp add: create_schema_def update_product_def add_category_def rename_category_def
      delete_category_def get_categories_def add_product_def delete_product_def
      get_products_by_category_def count_products_in_category_def get_product_def
      create_order_def update_order_status_def get_user_orders_def
      get_last_completed_orders_def get_order_def save_support_message_def)

theorem not_connected_witness:
  "conn (Database (ascii ''bot.db'')) = None \<and>
   create_schema (Database (ascii ''bot.db'')) 0 = Inl NOT_INITIALIZED \<and>
   update_product (Database (ascii ''bot.db'')) 1 [] = Inr (Database (ascii ''bot.db'')) \<and>
   isl (update_product (Database (ascii ''bot.db'')) 1 [Set_price 5]) \<and>
   isl (get_order (Database (ascii ''bot.db'')) 1)"
proof -
  have c: "conn (Database (ascii ''bot.db'')) = None" by (simp add: Database_def)
  show ?thesis
    using c not_connected[OF c, where now = 0 and product_id = 1 and kwargs = "[Set_price 5]"
        and order_id = 1]
    by simp
qed

text \<open>
  C3, as stated: every storage operation called before the connection is established fails
  with the not-initialized error. \<open>update_product\<close> with no field succeeds, and
  \<open>add_category\<close> fails with the attribute error of the absent connection.
\<close>

theorem not_initialized_counterexample:
  "update_product (Database (ascii ''bot.db'')) 1 [] = Inr (Database (ascii ''bot.db'')) \<and>
   add_category (Database (ascii ''bot.db'')) (ascii ''Roses'') 0 = Inl AttributeError \<and>
   AttributeError \<noteq> NOT_INITIALIZED"
  by (simp add: update_product_def add_category_def execute_def Database_def NOT_INITIALIZED_def)

section \<open>Order moderation\<close>

lemma find_map_status:
  assumes "find (\<lambda>ord. ord_id ord = i) xs = Some x"
  shows "find (\<lambda>ord. ord_id ord = i)
           (map (\<lambda>ord. if ord_id ord = i then ord\<lparr>ord_status := st\<rparr> else ord) xs)
         = Some (x\<lparr>ord_status := st\<rparr>)"
  using assms by (induction xs) (auto split: if_splits)

lemma update_order_status_get_order:
  assumes "get_order db order_id = Inr (Some ord)"
  shows "\<exists>db1. update_order_status db order_id st = Inr db1 \<and>
           get_order db1 order_id = Inr (Some (ord\<lparr>ord_status := st\<rparr>))"
proof -
  from assms obtain t where t: "execute db = Inr t"
    and f: "find (\<lambda>ord. ord_id ord = order_id) (orders t) = Some ord"
    by (auto simp: get_order_def split: sum.splits)
  from t have s: "has_schema t" by (auto simp: execute_def split: option.splits if_splits)
  show ?thesis
    using t s find_map_status[OF f, of st]
    by (simp add: update_order_status_def get_order_def execute_def commit_def)
qed

text \<open>
  C5: when an administrator accepts an existing order, its status becomes the in-progress
  label, and when an administrator rejects it, the cancelled label. The storage after the
  handler is the one the status update returns, whether or not the bot could deliver the
  notification to the customer (\<open>bot'\<close> is arbitrary), and the handler does not fail.
\<close>

theorem moderation_sets_status:
  assumes "ensure_admin (usr_id from_user) cfg"
    and "get_order db order_id = Inr (Some ord)"
  shows "(\<exists>outs db1. admin_order_accept db cfg bot' from_user order_id = Inr (outs, db1) \<and>
            update_order_status db order_id STATUS_IN_WORK = Inr db1 \<and>
            get_order db1 order_id = Inr (Some (ord\<lparr>ord_status := STATUS_IN_WORK\<rparr>))) \<and>
         (\<exists>outs db1. admin_order_reject db cfg bot' from_user order_id = Inr (outs, db1) \<and>
            update_order_status db order_id STATUS_CANCELLED = Inr db1 \<and>
            get_order db1 order_id = Inr (Some (ord\<lparr>ord_status := STATUS_CANCELLED\<rparr>)))"
proof -
  from update_order_status_get_order[OF assms(2), of STATUS_IN_WORK] obtain da
    where a: "update_order_status db order_id STATUS_IN_WORK = Inr da"
      "get_order da order_id = Inr (Some (ord\<lparr>ord_status := STATUS_IN_WORK\<rparr>))" by blast
  from update_order_status_get_order[OF assms(2), of STATUS_CANCELLED] obtain dr
    where r: "update_order_status db order_id STATUS_CANCELLED = Inr dr"
      "get_order dr order_id = Inr (Some (ord\<lparr>ord_status := STATUS_CANCELLED\<rparr>))" by blast
  show ?thesis using assms a r
    by (simp add: admin_order_accept_def admin_order_reject_def)
qed

section \<open>The date keyboard\<close>

lemma next_day_year: "dt_year (next_day d) \<le> dt_year d + 1"
  by (simp add: next_day_def)

lemma funpow_next_day_year: "dt_year ((next_day ^^ n) d) \<le> dt_year d + n"
proof (induction n)
  case 0
  then show ?case by simp
next
  case (Suc n)
  have "dt_year ((next_day ^^ Suc n) d) \<le> dt_year ((next_day ^^ n) d) + 1"
    using next_day_year by simp
  with Suc show ?case by simp
qed

lemma add_days_ok: "dt_year d + n \<le> 9999 \<Longrightarrow> add_days d n = Inr ((next_day ^^ n) d)"
  using funpow_next_day_year[of n d] by (simp add: add_days_def Let_def)

lemma day_buttons_ok:
  "\<forall>i \<in> set is. dt_year today + i \<le> 9999 \<Longrightarrow>
   day_buttons today is = Inr (map (day_button today) is)"
  by (induction "is") (simp_all add: add_days_ok day_button_def)

lemma order_date_kb_ok:
  assumes "dt_year today + 13 \<le> 9999"
  shows "order_date_kb include_today today =
     Inr (InlineKeyboard
       ([(if include_today
          then [\<lparr> btn_text = Label_today, callback_data = ascii ''date_selected:today'' \<rparr>]
          else []) @
         [\<lparr> btn_text = Label_tomorrow, callback_data = ascii ''date_selected:tomorrow'' \<rparr>]] @
        rows_of_seven (map (day_button today) [0 ..< 14]) @
        [[\<lparr> btn_text = Label_cancel_order, callback_data = ascii ''order_cancel'' \<rparr>]]))"
proof -
  have "\<forall>i \<in> set [0 ..< 14]. dt_year today + i \<le> 9999" using assms by auto
  then have "day_buttons today [0 ..< 14] = Inr (map (day_button today) [0 ..< 14])"
    by (rule day_buttons_ok)
  then show ?thesis by (simp add: order_date_kb_def)
qed



section \<open>The shop and the dialogue, evaluated\<close>

lemmas db_ops = create_schema_def update_product_def add_category_def rename_category_def
      delete_category_def get_categories_def add_product_def delete_product_def
      get_products_by_category_def count_products_in_category_def get_product_def
      create_order_def update_order_status_def get_user_orders_def
      get_last_completed_orders_def get_order_def save_support_message_def
      execute_def commit_def connect_def Database_def empty_file_def next_rowid_def

lemma fresh_shop_eq:
  "fresh_shop = \<lparr> db_path = ascii ''bot.db'', conn = Some \<lparr> has_schema = True,
     categories = seeded,
     products = [], orders = [], support_messages = [], seq_categories = 6, seq_products = 0,
     seq_orders = 0, seq_support = 0, last_insert_rowid = 6 \<rparr> \<rparr>"
  by (simp add: fresh_shop_def db_ops DEFAULT_CATEGORIES_def seeded_def)

lemma seeded_ids: "map cat_id seeded = [1, 2, 3, 4, 5, 6]"
  by (simp add: seeded_def DEFAULT_CATEGORIES_def)

lemma shop_with_product_eq:
  "shop_with_product = \<lparr> db_path = ascii ''bot.db'', conn = Some \<lparr> has_schema = True,
     categories = seeded,
     products = [roses],
     orders = [], support_messages = [], seq_categories = 6, seq_products = 1,
     seq_orders = 0, seq_support = 0, last_insert_rowid = 1 \<rparr> \<rparr>"
  by (simp add: shop_with_product_def fresh_shop_eq add_product_def execute_def commit_def
      next_rowid_def seeded_ids roses_def)

lemma get_roses: "get_product shop_with_product 1 = Inr (Some roses)"
  by (simp add: shop_with_product_eq get_product_def execute_def roses_def)

lemma order_start_evening:
  "order_start shop_with_product idle 1 1 1 saturday_evening =
     Inr ([Answer Choose_delivery_date (Some evening_kb), Cb_answer None False],
          \<lparr> cur_state = Some Order_waiting_for_delivery_date,
            cur_data = no_data\<lparr> d_product_id := Some 1, d_product_price := Some 1800000,
              d_product_name := Some (ascii ''Red roses''), d_category_id := Some 1,
              d_category_page := Some 1 \<rparr> \<rparr>)"
proof -
  have y: "dt_year (the_date saturday_evening) + 13 \<le> 9999" by (simp add: saturday_evening_def)
  have s: "is_after_six_pm saturday_evening"
    by (simp add: saturday_evening_def is_after_six_pm_def time_ge_def)
  show ?thesis
    unfolding order_start_def get_roses
    by (simp add: order_date_kb_ok[OF y] s evening_kb_def set_state_def idle_def roses_def)
qed

lemma ctx_started_eq:
  "ctx_started = \<lparr> cur_state = Some Order_waiting_for_delivery_date,
            cur_data = no_data\<lparr> d_product_id := Some 1, d_product_price := Some 1800000,
              d_product_name := Some (ascii ''Red roses''), d_category_id := Some 1,
              d_category_page := Some 1 \<rparr> \<rparr>"
  by (simp add: ctx_started_def order_start_evening)

lemma first_day_offered: "day_button today 0 \<in> set (concat (rows_of_seven (map (day_button today) [0 ..< 14])))"
  by (simp add: rows_of_seven_def upt_conv_Cons)

lemma resolve_today:
  "resolve_button (the_date saturday_evening) (day_button (the_date saturday_evening) 0)
     = [the_date saturday_evening]"
  by (simp add: resolve_button_def day_button_def saturday_evening_def startswith_def ascii_def
      after_colon_def selected_date_def isoformat_def pad4_def pad2_def fromisoformat_def
      valid_date_def days_in_month_def is_leap_def)

lemma offered_datesI:
  "b \<in> set (concat rows) \<Longrightarrow> d \<in> set (resolve_button today b) \<Longrightarrow>
   d \<in> set (offered_dates (InlineKeyboard rows) today)"
  by (auto simp: offered_dates_def)

text \<open>
  C2 says that a fresh order started at 18:00 or later is offered no option that resolves
  to the current date. Run at 18:30 on 2024-06-15: \<open>order_start\<close> leaves out the today
  button, but the first button of the calendar grid carries \<open>date_selected:2024-06-15\<close>,
  so the current date is among the dates the keyboard offers, and pressing that button
  stores it as the delivery date.
\<close>

theorem same_day_offered_after_cutoff:
  "is_after_six_pm saturday_evening \<and>
   order_start shop_with_product idle 1 1 1 saturday_evening =
     Inr ([Answer Choose_delivery_date (Some evening_kb), Cb_answer None False], ctx_started) \<and>
   the_date saturday_evening \<in> set (offered_dates evening_kb (the_date saturday_evening)) \<and>
   date_selected ctx_started (ascii ''date_selected:2024-06-15'') (the_date saturday_evening) =
     Inr ([Answer Choose_delivery_time (Some Order_time_kb), Cb_answer None False],
          \<lparr> cur_state = Some Order_waiting_for_delivery_time,
            cur_data = (cur_data ctx_started)\<lparr>
              d_delivery_date := Some (isoformat (the_date saturday_evening)) \<rparr> \<rparr>)"
proof -
  have s: "is_after_six_pm saturday_evening"
    by (simp add: saturday_evening_def is_after_six_pm_def time_ge_def)
  have o: "the_date saturday_evening \<in> set (offered_dates evening_kb (the_date saturday_evening))"
    unfolding evening_kb_def
  proof (rule offered_datesI)
    show "day_button (the_date saturday_evening) 0 \<in> set (concat
       ([[\<lparr> btn_text = Label_tomorrow, callback_data = ascii ''date_selected:tomorrow'' \<rparr>]] @
        rows_of_seven (map (day_button (the_date saturday_evening)) [0 ..< 14]) @
        [[\<lparr> btn_text = Label_cancel_order, callback_data = ascii ''order_cancel'' \<rparr>]]))"
      using first_day_offered[of "the_date saturday_evening"] by simp
    show "the_date saturday_evening \<in> set (resolve_button (the_date saturday_evening)
        (day_button (the_date saturday_evening) 0))"
      by (simp add: resolve_today)
  qed
  have d: "date_selected ctx_started (ascii ''date_selected:2024-06-15'') (the_date saturday_evening) =
     Inr ([Answer Choose_delivery_time (Some Order_time_kb), Cb_answer None False],
          \<lparr> cur_state = Some Order_waiting_for_delivery_time,
            cur_data = (cur_data ctx_started)\<lparr>
              d_delivery_date := Some (isoformat (the_date saturday_evening)) \<rparr> \<rparr>)"
    by (simp add: date_selected_def after_colon_def selected_date_def ascii_def fromisoformat_def
        valid_date_def days_in_month_def is_leap_def set_state_def saturday_evening_def
        ctx_started_eq)
  show ?thesis using s o d order_start_evening ctx_started_eq by simp
qed

lemma shop_with_order_eq:
  "shop_with_order = \<lparr> db_path = ascii ''bot.db'', conn = Some \<lparr> has_schema = True,
     categories = seeded,
     products = [roses],
     orders = [annas_order], support_messages = [], seq_categories = 6, seq_products = 1,
     seq_orders = 1, seq_support = 0, last_insert_rowid = 1 \<rparr> \<rparr>"
  by (simp add: shop_with_order_def shop_with_product_eq create_order_def execute_def commit_def
      next_rowid_def roses_def annas_order_def)

lemma get_annas_order: "get_order shop_with_order 1 = Inr (Some annas_order)"
  by (simp add: shop_with_order_eq get_order_def execute_def annas_order_def)

theorem moderation_sets_status_witness:
  "ensure_admin 2 shop_settings \<and>
   get_order shop_with_order 1 = Inr (Some annas_order) \<and>
   (\<exists>outs db1. admin_order_accept shop_with_order shop_settings (\<lambda>chat. False)
        \<lparr> usr_id = 2, usr_username = None \<rparr> 1 = Inr (outs, db1) \<and>
      get_order db1 1 = Inr (Some (annas_order\<lparr>ord_status := STATUS_IN_WORK\<rparr>))) \<and>
   (\<exists>outs db1. admin_order_reject shop_with_order shop_settings (\<lambda>chat. False)
        \<lparr> usr_id = 2, usr_username = None \<rparr> 1 = Inr (outs, db1) \<and>
      get_order db1 1 = Inr (Some (annas_order\<lparr>ord_status := STATUS_CANCELLED\<rparr>)))"
proof -
  have a: "ensure_admin (usr_id \<lparr> usr_id = 2, usr_username = None \<rparr>) shop_settings"
    by (simp add: ensure_admin_def shop_settings_def)
  show ?thesis
    using a get_annas_order
      moderation_sets_status[OF a get_annas_order, of "\<lambda>chat. False"]
    by auto
qed

section \<open>Order confirmation\<close>

lemma fold_max_ge: "(s::int) \<le> fold max ids s \<and> (\<forall>x\<in>set ids. x \<le> fold max ids s)"
proof (induction ids arbitrary: s)
  case Nil
  then show ?case by simp
next
  case (Cons a ids)
  from Cons[of "max a s"] show ?case by auto
qed

lemma next_rowid_fresh: "next_rowid s ids \<notin> set ids"
  using fold_max_ge[of s ids] by (auto simp: next_rowid_def)

lemma find_fresh:
  assumes "i \<notin> set (map ord_id xs)" and "ord_id x = i"
  shows "find (\<lambda>ord. ord_id ord = i) (xs @ [x]) = Some x"
    and "find (\<lambda>ord. ord_id ord = i) xs = None"
proof -
  have n: "\<And>y. y \<in> set xs \<Longrightarrow> ord_id y \<noteq> i" using assms(1) by auto
  then show "find (\<lambda>ord. ord_id ord = i) xs = None" by (simp add: find_None_iff)
  show "find (\<lambda>ord. ord_id ord = i) (xs @ [x]) = Some x"
    using n assms(2) by (induction xs) auto
qed

text \<open>
  C1: confirming an order in the confirmation step reads the product from storage and
  persists a new order whose price is the product's stored price at that moment, with the
  collected fields; the price snapshotted into the conversation data at initiation
  (\<open>d_product_price\<close>, on which nothing is assumed) plays no part. The handler does
  not fail, and the order is new: its id was not in use before.
\<close>

theorem order_confirm_current_price:
  assumes "d_product_id (cur_data ctx) = Some product_id"
    and "get_product db product_id = Inr (Some product)"
    and "d_delivery_date (cur_data ctx) = Some delivery_date"
    and "d_delivery_time (cur_data ctx) = Some delivery_time"
    and "d_address (cur_data ctx) = Some address"
    and "d_phone (cur_data ctx) = Some phone"
  shows "\<exists>outs order_id db1 created.
           order_confirm db ctx from_user cfg bot' now = Inr (outs, clear ctx, db1) \<and>
           get_order db order_id = Inr None \<and>
           get_order db1 order_id =
             Inr (Some \<lparr> ord_id = order_id, ord_user_id = usr_id from_user,
                   ord_username = usr_username from_user, ord_product_id = product_id,
                   ord_price = prod_price product, ord_delivery_date = delivery_date,
                   ord_delivery_time = delivery_time, ord_address = address,
                   ord_card_text = d_card_text (cur_data ctx), ord_phone = phone,
                   ord_status = STATUS_NEW, ord_created_at = created \<rparr>)"
proof -
  from assms(2) obtain t where t: "execute db = Inr t"
    and f: "find (\<lambda>p. prod_id p = product_id) (products t) = Some product"
    by (auto simp: get_product_def split: sum.splits)
  from t have s: "has_schema t" and c: "conn db = Some t"
    by (auto simp: execute_def split: option.splits if_splits)
  from f have m: "product_id \<in> set (map prod_id (products t))"
    by (auto simp: find_Some_iff)
  let ?i = "next_rowid (seq_orders t) (map ord_id (orders t))"
  let ?o = "\<lparr> ord_id = ?i, ord_user_id = usr_id from_user,
                   ord_username = usr_username from_user, ord_product_id = product_id,
                   ord_price = prod_price product, ord_delivery_date = delivery_date,
                   ord_delivery_time = delivery_time, ord_address = address,
                   ord_card_text = d_card_text (cur_data ctx), ord_phone = phone,
                   ord_status = STATUS_NEW, ord_created_at = now \<rparr>"
  have fr: "?i \<notin> set (map ord_id (orders t))" by (rule next_rowid_fresh)
  have "ord_id ?o = ?i" by simp
  note ff = find_fresh[OF fr this]
  have 1: "get_order db ?i = Inr None" using t ff(2) by (simp add: get_order_def)
  have 2: "create_order db (usr_id from_user) (usr_username from_user) product_id
             (prod_price product) delivery_date delivery_time address (d_card_text (cur_data ctx))
             phone STATUS_NEW now
           = Inr (?i, commit db (t\<lparr>orders := orders t @ [?o], seq_orders := ?i,
                last_insert_rowid := ?i\<rparr>))"
    using t m by (simp add: create_order_def Let_def)
  have 3: "get_order (commit db (t\<lparr>orders := orders t @ [?o], seq_orders := ?i,
                last_insert_rowid := ?i\<rparr>)) ?i = Inr (Some ?o)"
    using s ff(1) by (simp add: get_order_def execute_def commit_def)
  show ?thesis
    using assms 1 2 3
    by (simp add: order_confirm_def item_def Let_def) blast
qed

lemma shop_repriced_eq:
  "shop_repriced = \<lparr> db_path = ascii ''bot.db'', conn = Some \<lparr> has_schema = True,
     categories = seeded,
     products = [roses\<lparr>prod_price := 2000000\<rparr>],
     orders = [], support_messages = [], seq_categories = 6, seq_products = 1,
     seq_orders = 0, seq_support = 0, last_insert_rowid = 1 \<rparr> \<rparr>"
  by (simp add: shop_repriced_def shop_with_product_eq update_product_def execute_def commit_def
      seeded_ids roses_def)

lemma get_repriced: "get_product shop_repriced 1 = Inr (Some (roses\<lparr>prod_price := 2000000\<rparr>))"
  by (simp add: shop_repriced_eq get_product_def execute_def roses_def)

lemma ctx_dated_eq:
  "ctx_dated = \<lparr> cur_state = Some Order_waiting_for_delivery_time,
      cur_data = no_data\<lparr> d_product_id := Some 1, d_product_price := Some 1800000,
        d_product_name := Some (ascii ''Red roses''), d_category_id := Some 1,
        d_category_page := Some 1, d_delivery_date := Some (ascii ''2024-06-16'') \<rparr> \<rparr>"
  by (simp add: ctx_dated_def ctx_started_eq date_selected_def after_colon_def selected_date_def
      ascii_def add_days_def next_day_def days_in_month_def is_leap_def saturday_evening_def
      isoformat_def pad4_def pad2_def set_state_def)

lemma ctx_timed_eq:
  "ctx_timed = \<lparr> cur_state = Some Order_waiting_for_address,
      cur_data = no_data\<lparr> d_product_id := Some 1, d_product_price := Some 1800000,
        d_product_name := Some (ascii ''Red roses''), d_category_id := Some 1,
        d_category_page := Some 1, d_delivery_date := Some (ascii ''2024-06-16''),
        d_delivery_time := Some (ascii ''12:00-15:00'') \<rparr> \<rparr>"
  by (simp add: ctx_timed_def ctx_dated_eq time_selected_def after_colon_def ascii_def
      set_state_def)

lemma phone_ok: "is_phone_valid ucd_basic (strip (ascii ''0912345678''))"
  by (simp add: is_phone_valid_def PAT_GROUPED_def PAT_LOCAL_def PAT_PLUS_def ascii_def
      strip_def isspace_def ucd_basic_def isdecimal_def)

lemma ctx_filled_eq:
  "ctx_filled = \<lparr> cur_state = Some Order_waiting_for_confirmation,
      cur_data = no_data\<lparr> d_product_id := Some 1, d_product_price := Some 1800000,
        d_product_name := Some (ascii ''Red roses''), d_category_id := Some 1,
        d_category_page := Some 1, d_delivery_date := Some (ascii ''2024-06-16''),
        d_delivery_time := Some (ascii ''12:00-15:00''),
        d_address := Some (ascii ''123 Main Street Apt 4''), d_card_text := None,
        d_phone := Some (ascii ''0912345678'') \<rparr> \<rparr>"
proof -
  have s1: "strip (ascii ''123 Main Street Apt 4'') = ascii ''123 Main Street Apt 4''"
    by (simp add: strip_def ascii_def isspace_def)
  have s2: "strip (ascii ''0912345678'') = ascii ''0912345678''"
    by (simp add: strip_def ascii_def isspace_def)
  have l: "length (ascii ''123 Main Street Apt 4'') = 21" by (simp add: ascii_def)
  show ?thesis
    using phone_ok
    by (simp add: ctx_filled_def ctx_timed_eq address_text_def s1 s2 l card_skip_def
        ask_phone_def phone_text_def show_summary_def set_state_def no_data_def Let_def)
qed

theorem order_confirm_current_price_witness:
  "d_product_price (cur_data ctx_filled) = Some 1800000 \<and>
   get_product shop_repriced 1 = Inr (Some (roses\<lparr>prod_price := 2000000\<rparr>)) \<and>
   (\<exists>outs order_id db1 created.
      order_confirm shop_repriced ctx_filled anna shop_settings (\<lambda>chat. True) 300 =
        Inr (outs, clear ctx_filled, db1) \<and>
      get_order shop_repriced order_id = Inr None \<and>
      get_order db1 order_id =
        Inr (Some \<lparr> ord_id = order_id, ord_user_id = 777,
              ord_username = Some (ascii ''anna''), ord_product_id = 1,
              ord_price = 2000000, ord_delivery_date = ascii ''2024-06-16'',
              ord_delivery_time = ascii ''12:00-15:00'',
              ord_address = ascii ''123 Main Street Apt 4'',
              ord_card_text = None, ord_phone = ascii ''0912345678'',
              ord_status = STATUS_NEW, ord_created_at = created \<rparr>))"
proof -
  have d: "d_product_id (cur_data ctx_filled) = Some 1"
    "d_delivery_date (cur_data ctx_filled) = Some (ascii ''2024-06-16'')"
    "d_delivery_time (cur_data ctx_filled) = Some (ascii ''12:00-15:00'')"
    "d_address (cur_data ctx_filled) = Some (ascii ''123 Main Street Apt 4'')"
    "d_phone (cur_data ctx_filled) = Some (ascii ''0912345678'')"
    "d_card_text (cur_data ctx_filled) = None"
    "d_product_price (cur_data ctx_filled) = Some 1800000"
    by (simp_all add: ctx_filled_eq no_data_def)
  have p: "prod_price (roses\<lparr>prod_price := 2000000\<rparr>) = 2000000" by simp
  show ?thesis
    using order_confirm_current_price[OF d(1) get_repriced d(2) d(3) d(4) d(5),
        of anna shop_settings "\<lambda>chat. True" 300] d(6,7) get_repriced
    unfolding p by (simp add: anna_def)
qed

section \<open>The address step\<close>

lemma address_text_too_short:
  "length (strip text) < 10 \<Longrightarrow> address_text ctx text = ([Answer Address_too_short None], ctx)"
  by (simp add: address_text_def)

lemma address_text_stores_text:
  "10 \<le> length (strip text) \<Longrightarrow>
   d_address (cur_data (snd (address_text ctx text))) = Some (strip text)"
  by (simp add: address_text_def set_state_def)

text \<open>
  C7 says that the \<open>geo:\<close> marker stored for a shared location is still in the address
  after the customer has sent the supplementary line. Run on the dialogue above: the
  location is stored as \<open>geo:12.2388,109.1967\<close> and the state stays at the address
  step; the supplementary line then replaces the stored address, and the marker is gone
  when the flow advances to the card step.
\<close>

theorem location_marker_lost:
  "cur_state ctx_timed = Some Order_waiting_for_address \<and>
   address_location ctx_timed nha_trang = ([Answer Ask_address_details None], ctx_located) \<and>
   cur_state ctx_located = Some Order_waiting_for_address \<and>
   d_address (cur_data ctx_located) = Some (ascii ''geo:12.2388,109.1967'') \<and>
   address_text ctx_located (ascii ''Apartment 12, floor 3'') =
     ([Answer Ask_card (Some Card_text_kb)], ctx_addressed) \<and>
   cur_state ctx_addressed = Some Order_waiting_for_card_text \<and>
   d_address (cur_data ctx_addressed) = Some (ascii ''Apartment 12, floor 3'')"
proof -
  have s: "strip (ascii ''Apartment 12, floor 3'') = ascii ''Apartment 12, floor 3''"
    by (simp add: strip_def ascii_def isspace_def)
  have l: "length (ascii ''Apartment 12, floor 3'') = 21" by (simp add: ascii_def)
  have 1: "address_location ctx_timed nha_trang = ([Answer Ask_address_details None], ctx_located)"
    by (simp add: ctx_located_def address_location_def)
  have 2: "cur_state ctx_located = Some Order_waiting_for_address"
    "d_address (cur_data ctx_located) = Some (ascii ''geo:12.2388,109.1967'')"
    by (simp_all add: ctx_located_def address_location_def ctx_timed_eq nha_trang_def ascii_def)
  have 3: "address_text ctx_located (ascii ''Apartment 12, floor 3'') =
     ([Answer Ask_card (Some Card_text_kb)], ctx_addressed)"
    by (simp add: ctx_addressed_def address_text_def s l)
  have 4: "cur_state ctx_addressed = Some Order_waiting_for_card_text"
    "d_address (cur_data ctx_addressed) = Some (ascii ''Apartment 12, floor 3'')"
    by (simp_all add: ctx_addressed_def address_text_def s l set_state_def)
  show ?thesis using 1 2 3 4 by (simp add: ctx_timed_eq)
qed

section \<open>The price step of the add-product dialogue\<close>











section \<open>The product list\<close>

lemma ceil_div_5: "0 \<le> n \<Longrightarrow> ceil_div n 5 = (n + 4) div 5"
  unfolding ceil_div_def by presburger

text \<open>
  C4: for a category with \<open>n\<close> active products the product list shows
  \<open>max(1, ceiling(n / 5))\<close> pages, one page even when \<open>n = 0\<close>; the requested page is
  clamped into the range from 1 to that number; and the products shown are those the page
  query returns, which are the at most five active products of the category found at
  offset \<open>(page - 1) * 5\<close> of the full list (the query without a limit). With twelve
  products there are three pages, the requests for page 0 and page 99 show pages 1 and 3,
  and page 3 has exactly two products.
\<close>

theorem products_page:
  assumes "count_products_in_category db category_id = Inr n"
  shows "\<exists>name prods everything.
     (let total_pages = max 1 (ceil_div n 5);
          page = min (max 1 page0) total_pages
      in send_products_page db category_id page0 =
           Inr ([Answer (Products_header name page total_pages) None] @
                map (\<lambda>p. Answer_photo p (Product_list_action_kb (prod_id p) category_id page))
                  prods @
                [Answer Products_navigation
                   (Some (Products_navigation_kb category_id page (1 < page)
                            (page < total_pages)))]) \<and>
         0 \<le> n \<and> total_pages = (if n = 0 then 1 else (n + 4) div 5) \<and>
         1 \<le> page \<and> page \<le> total_pages \<and>
         get_products_by_category db category_id 5 ((page - 1) * 5) = Inr prods \<and>
         get_products_by_category db category_id (- 1) 0 = Inr everything \<and>
         int (length everything) = n \<and>
         list_all (active_in_category category_id) everything \<and>
         prods = take 5 (drop (nat ((page - 1) * 5)) everything) \<and>
         length prods \<le> 5 \<and>
         (n = 12 \<longrightarrow> total_pages = 3 \<and> (page0 = 0 \<longrightarrow> page = 1) \<and> (page0 = 99 \<longrightarrow> page = 3) \<and>
            (page = 3 \<longrightarrow> length prods = 2)))"
proof -
  from assms obtain t where t: "execute db = Inr t"
    and n: "n = int (length (filter (active_in_category category_id) (products t)))"
    by (auto simp: count_products_in_category_def split: sum.splits)
  define everything where
    "everything = order_by_created_desc prod_created_at
       (filter (active_in_category category_id) (products t))"
  define total_pages where "total_pages = max 1 (ceil_div n 5)"
  define page where "page = min (max 1 page0) total_pages"
  define prods where "prods = take 5 (drop (nat ((page - 1) * 5)) everything)"
  define name where "name = (case find (\<lambda>c. cat_id c = category_id) (sort_key cat_id (categories t)) of
                               Some c \<Rightarrow> cat_name c
                             | None \<Rightarrow> DEFAULT_CATEGORY_NAME)"
  have n0: "0 \<le> n" using n by simp
  have len: "int (length everything) = n" by (simp add: everything_def order_by_created_desc_def n)
  have act: "list_all (active_in_category category_id) everything"
    by (simp add: everything_def order_by_created_desc_def list_all_iff)
  have tp: "total_pages = (if n = 0 then 1 else (n + 4) div 5)"
    using n0 by (auto simp: total_pages_def ceil_div_5)
  have pg: "1 \<le> page" "page \<le> total_pages" by (auto simp: page_def total_pages_def)
  have g5: "get_products_by_category db category_id 5 ((page - 1) * 5) = Inr prods"
    using t by (simp add: get_products_by_category_def sql_limit_def sql_offset_def prods_def
        everything_def)
  have ga: "get_products_by_category db category_id (- 1) 0 = Inr everything"
    using t by (simp add: get_products_by_category_def sql_limit_def sql_offset_def everything_def)
  have l5: "length prods \<le> 5" by (simp add: prods_def)
  have ex: "n = 12 \<longrightarrow> total_pages = 3 \<and> (page0 = 0 \<longrightarrow> page = 1) \<and> (page0 = 99 \<longrightarrow> page = 3) \<and>
            (page = 3 \<longrightarrow> length prods = 2)"
    using len by (auto simp: tp page_def prods_def)
  have sp: "send_products_page db category_id page0 =
           Inr ([Answer (Products_header name page total_pages) None] @
                map (\<lambda>p. Answer_photo p (Product_list_action_kb (prod_id p) category_id page))
                  prods @
                [Answer Products_navigation
                   (Some (Products_navigation_kb category_id page (1 < page)
                            (page < total_pages)))])"
    using assms g5 t unfolding send_products_page_def
    by (simp add: Let_def PAGE_SIZE_def total_pages_def[symmetric] page_def[symmetric]
        get_categories_def name_def)
  show ?thesis
    unfolding Let_def total_pages_def[symmetric] page_def[symmetric]
    using sp n0 tp pg g5 ga len act l5 ex prods_def by blast
qed

lemma dozen_count: "count_products_in_category shop_with_dozen 1 = Inr 12"
  by (simp add: shop_with_dozen_def fresh_shop_eq add_product_def execute_def commit_def
      next_rowid_def seeded_ids count_products_in_category_def active_in_category_def)

theorem products_page_witness:
  "count_products_in_category shop_with_dozen 1 = Inr 12 \<and>
   (\<exists>name prods.
      send_products_page shop_with_dozen 1 99 =
        Inr ([Answer (Products_header name 3 3) None] @
             map (\<lambda>p. Answer_photo p (Product_list_action_kb (prod_id p) 1 3)) prods @
             [Answer Products_navigation (Some (Products_navigation_kb 1 3 True False))]) \<and>
      length prods = 2)"
proof -
  have c: "max 1 (ceil_div 12 5) = 3" by (simp add: ceil_div_def)
  show ?thesis
    using dozen_count products_page[OF dozen_count, of 99]
    unfolding Let_def c by auto
qed

section \<open>Category names stay unique\<close>

lemma execute_conn: "execute db = Inr t \<Longrightarrow> conn db = Some t \<and> has_schema t"
  by (auto simp: execute_def split: option.splits if_splits)

lemma rows_commit: "category_rows (commit db t) = categories t"
  by (simp add: category_rows_def commit_def)

lemma rename_ids:
  "map cat_id (map (\<lambda>c. if cat_id c = i then c\<lparr>cat_name := n\<rparr> else c) rows) = map cat_id rows"
  by (induction rows) auto

lemma rename_names_absent:
  "\<not> list_ex (\<lambda>c. cat_id c = i) rows \<Longrightarrow>
   map (\<lambda>c. if cat_id c = i then c\<lparr>cat_name := n\<rparr> else c) rows = rows"
  by (induction rows) auto

lemma rename_names_distinct:
  assumes "distinct (map cat_id rows)" and "distinct (map cat_name rows)"
    and "\<not> list_ex (\<lambda>c. cat_id c \<noteq> i \<and> cat_name c = n) rows"
  shows "distinct (map cat_name (map (\<lambda>c. if cat_id c = i then c\<lparr>cat_name := n\<rparr> else c) rows))"
  using assms
proof (induction rows)
  case Nil
  then show ?case by simp
next
  case (Cons r rows)
  let ?f = "\<lambda>c. if cat_id c = i then c\<lparr>cat_name := n\<rparr> else c"
  have ih: "distinct (map cat_name (map ?f rows))" using Cons by simp
  show ?case
  proof (cases "cat_id r = i")
    case True
    have "cat_id r \<notin> set (map cat_id rows)" using Cons.prems(1) by simp
    then have "\<forall>c\<in>set rows. cat_id c \<noteq> i" using True by (metis image_eqI set_map)
    then have same: "map ?f rows = rows" by (induction rows) auto
    have "n \<notin> set (map cat_name rows)"
      using Cons.prems(3) \<open>\<forall>c\<in>set rows. cat_id c \<noteq> i\<close> by (auto simp: list_ex_iff)
    then show ?thesis using True same Cons.prems(2) by simp
  next
    case False
    have "cat_name r \<notin> set (map cat_name (map ?f rows))"
    proof
      assume "cat_name r \<in> set (map cat_name (map ?f rows))"
      then obtain c where c: "c \<in> set rows" "cat_name (?f c) = cat_name r" by auto
      show False
      proof (cases "cat_id c = i")
        case True
        then have "cat_name r = n" using c by simp
        then show False using Cons.prems(3) False by simp
      next
        case False
        then have "cat_name c = cat_name r" using c by simp
        moreover have "cat_name r \<notin> set (map cat_name rows)" using Cons.prems(2) by simp
        ultimately show False using c(1) by (metis image_eqI set_map)
      qed
    qed
    then show ?thesis using False ih by simp
  qed
qed

lemma add_category_ok:
  assumes "categories_ok db" and "add_category db name now = Inr (i, db')"
  shows "categories_ok db'"
proof -
  from assms(2) obtain t where t: "execute db = Inr t"
    by (auto simp: add_category_def split: sum.splits)
  note c = execute_conn[OF t]
  have fr: "next_rowid (seq_categories t) (map cat_id (categories t)) \<notin> set (map cat_id (categories t))"
    by (rule next_rowid_fresh)
  have rows: "category_rows db = categories t" using c by (simp add: category_rows_def)
  have inv: "distinct (map cat_id (categories t))" "distinct (map cat_name (categories t))"
    using assms(1) rows by (simp_all add: categories_ok_def)
  show ?thesis
  proof (cases "name \<in> set (map cat_name (categories t))")
    case True
    then have "category_rows db' = categories t"
      using assms(2) t by (auto simp: add_category_def Let_def rows_commit)
    then show ?thesis using inv by (simp add: categories_ok_def)
  next
    case False
    then have "category_rows db' = categories t @
        [\<lparr> cat_id = next_rowid (seq_categories t) (map cat_id (categories t)),
           cat_name = name, cat_created_at = now \<rparr>]"
      using assms(2) t by (auto simp: add_category_def Let_def rows_commit)
    then show ?thesis using inv fr False by (simp add: categories_ok_def)
  qed
qed

lemma rename_category_ok:
  assumes "categories_ok db" and "rename_category db i n = Inr db'"
  shows "categories_ok db'"
proof -
  from assms(2) obtain t where t: "execute db = Inr t"
    by (auto simp: rename_category_def split: sum.splits)
  note c = execute_conn[OF t]
  let ?rows = "map (\<lambda>c. if cat_id c = i then c\<lparr>cat_name := n\<rparr> else c) (categories t)"
  have d: "db' = commit db (t\<lparr>categories := ?rows\<rparr>)"
    and ok: "\<not> (list_ex (\<lambda>c. cat_id c = i) (categories t) \<and>
             list_ex (\<lambda>c. cat_id c \<noteq> i \<and> cat_name c = n) (categories t))"
    using assms(2) t by (auto simp: rename_category_def split: if_splits)
  have inv: "distinct (map cat_id (categories t))" "distinct (map cat_name (categories t))"
    using assms(1) c by (auto simp: categories_ok_def category_rows_def)
  have "distinct (map cat_name ?rows)"
  proof (cases "list_ex (\<lambda>c. cat_id c = i) (categories t)")
    case True
    with ok have "\<not> list_ex (\<lambda>c. cat_id c \<noteq> i \<and> cat_name c = n) (categories t)" by blast
    from rename_names_distinct[OF inv this] show ?thesis .
  next
    case False
    then show ?thesis using rename_names_absent[OF False, of n] inv(2) by simp
  qed
  moreover have "distinct (map cat_id ?rows)" using inv(1) by (simp only: rename_ids)
  moreover have "category_rows db' = ?rows" unfolding d rows_commit by simp
  ultimately show ?thesis unfolding categories_ok_def by (simp only:)
qed

lemma delete_category_ok:
  assumes "categories_ok db" and "delete_category db i = Inr db'"
  shows "categories_ok db'"
proof -
  from assms(2) obtain t where t: "execute db = Inr t"
    by (auto simp: delete_category_def split: sum.splits)
  note c = execute_conn[OF t]
  have inv: "distinct (map cat_id (categories t))" "distinct (map cat_name (categories t))"
    using assms(1) c by (auto simp: categories_ok_def category_rows_def)
  show ?thesis
    using assms(2) t inv
    by (auto simp: delete_category_def Let_def categories_ok_def rows_commit distinct_map_filter
        split: if_splits)
qed

lemma add_categories_ok:
  "categories_ok db \<Longrightarrow> add_categories db names now = Inr db' \<Longrightarrow> categories_ok db'"
proof (induction names arbitrary: db)
  case Nil
  then show ?case by simp
next
  case (Cons name names)
  from Cons.prems(2) obtain i db1 where a: "add_category db name now = Inr (i, db1)"
    and r: "add_categories db1 names now = Inr db'"
    by (auto split: sum.splits)
  from add_category_ok[OF Cons.prems(1) a] have "categories_ok db1" .
  from Cons.IH[OF this r] show ?case .
qed

lemma create_schema_ok:
  assumes "categories_ok db" and "create_schema db now = Inr db'"
  shows "categories_ok db'"
proof -
  from assms(2) obtain t where t: "conn db = Some t"
    by (auto simp: create_schema_def split: option.splits)
  let ?db1 = "commit db (t\<lparr>has_schema := True\<rparr>)"
  have ok1: "categories_ok ?db1"
    using assms(1) t by (simp add: categories_ok_def category_rows_def commit_def)
  have g: "get_categories ?db1 = Inr (sort_key cat_id (categories t))"
    by (simp add: get_categories_def execute_def commit_def)
  show ?thesis
  proof (cases "sort_key cat_id (categories t) = []")
    case True
    then have "add_categories ?db1 DEFAULT_CATEGORIES now = Inr db'"
      using assms(2) t g by (simp add: create_schema_def Let_def)
    from add_categories_ok[OF ok1 this] show ?thesis .
  next
    case False
    then have "db' = ?db1" using assms(2) t g by (simp add: create_schema_def Let_def)
    then show ?thesis using ok1 by simp
  qed
qed

lemma category_step_ok: "categories_ok db \<Longrightarrow> categories_ok (category_step db op)"
proof (cases op)
  case (Add_category name now)
  assume "categories_ok db"
  then show ?thesis using Add_category add_category_ok[of db name now]
    by (auto split: sum.splits)
next
  case (Rename_category i n)
  assume "categories_ok db"
  then show ?thesis using Rename_category rename_category_ok[of db i n]
    by (auto split: sum.splits)
next
  case (Delete_category i)
  assume "categories_ok db"
  then show ?thesis using Delete_category delete_category_ok[of db i]
    by (auto split: sum.splits)
next
  case (Create_schema now)
  assume "categories_ok db"
  then show ?thesis using Create_schema create_schema_ok[of db now]
    by (auto split: sum.splits)
qed

lemma category_steps_ok: "categories_ok db \<Longrightarrow> categories_ok (category_steps db ops)"
  unfolding category_steps_def
  by (induction ops arbitrary: db) (simp_all add: category_step_ok)

text \<open>
  C9: category names are unique, and stay so. Starting from a categories table whose names
  are pairwise distinct (and whose ids are, as a primary key's are), any sequence of
  category-writing operations leaves the names pairwise distinct; so does any such
  sequence on a newly opened empty file. And adding a category whose name is already
  stored succeeds and leaves the stored category list as it was.
\<close>

theorem category_names_unique:
  assumes "distinct (map cat_id (category_rows db))"
    and "distinct (map cat_name (category_rows db))"
  shows "distinct (map cat_name (category_rows (category_steps db ops))) \<and>
         distinct (map cat_name (category_rows
           (category_steps (connect (Database path) empty_file) ops'))) \<and>
         (\<forall>t. execute db = Inr t \<and> name \<in> set (map cat_name (categories t)) \<longrightarrow>
            (\<exists>i db'. add_category db name now = Inr (i, db') \<and>
               category_rows db' = categories t \<and> category_rows db = categories t))"
proof -
  have "categories_ok db" using assms by (simp add: categories_ok_def)
  then have "categories_ok (category_steps db ops)" by (rule category_steps_ok)
  then have 1: "distinct (map cat_name (category_rows (category_steps db ops)))"
    by (simp add: categories_ok_def)
  have "categories_ok (connect (Database path) empty_file)"
    by (simp add: categories_ok_def category_rows_def connect_def empty_file_def)
  then have "categories_ok (category_steps (connect (Database path) empty_file) ops')"
    by (rule category_steps_ok)
  then have 3: "distinct (map cat_name (category_rows
           (category_steps (connect (Database path) empty_file) ops')))"
    by (simp add: categories_ok_def)
  have 2: "\<forall>t. execute db = Inr t \<and> name \<in> set (map cat_name (categories t)) \<longrightarrow>
            (\<exists>i db'. add_category db name now = Inr (i, db') \<and>
               category_rows db' = categories t \<and> category_rows db = categories t)"
  proof (intro allI impI)
    fix t assume h: "execute db = Inr t \<and> name \<in> set (map cat_name (categories t))"
    then have "conn db = Some t" using execute_conn by blast
    then show "\<exists>i db'. add_category db name now = Inr (i, db') \<and>
               category_rows db' = categories t \<and> category_rows db = categories t"
      using h by (simp add: add_category_def Let_def rows_commit) (simp add: category_rows_def)
  qed
  show ?thesis using 1 2 3 by blast
qed

lemma seeded_names: "map cat_name seeded = DEFAULT_CATEGORIES"
  by (simp add: seeded_def DEFAULT_CATEGORIES_def)

lemma default_distinct: "distinct DEFAULT_CATEGORIES"
  by (simp add: DEFAULT_CATEGORIES_def)

lemma fresh_rows: "category_rows fresh_shop = seeded"
  by (simp add: category_rows_def fresh_shop_eq)

theorem category_names_unique_witness:
  "distinct (map cat_id (category_rows fresh_shop)) \<and>
   distinct (map cat_name (category_rows fresh_shop)) \<and>
   rename_category fresh_shop 2 (hd DEFAULT_CATEGORIES) = Inl IntegrityError \<and>
   distinct (map cat_name (category_rows (category_steps fresh_shop
     [Add_category (hd DEFAULT_CATEGORIES) 5, Rename_category 2 (hd DEFAULT_CATEGORIES),
      Rename_category 2 (ascii ''Tulips''), Delete_category 3,
      Add_category (ascii ''Tulips'') 6, Add_category (ascii ''Peonies'') 7]))) \<and>
   (\<exists>i db'. add_category fresh_shop (hd DEFAULT_CATEGORIES) 5 = Inr (i, db') \<and>
      category_rows db' = seeded)"
proof -
  have i: "distinct (map cat_id (category_rows fresh_shop))"
    by (simp add: fresh_rows seeded_ids)
  have n: "distinct (map cat_name (category_rows fresh_shop))"
    by (simp add: fresh_rows seeded_names default_distinct)
  have r: "rename_category fresh_shop 2 (hd DEFAULT_CATEGORIES) = Inl IntegrityError"
    by (simp add: rename_category_def execute_def fresh_shop_eq seeded_def DEFAULT_CATEGORIES_def)
  have e: "execute fresh_shop = Inr \<lparr> has_schema = True,
     categories = seeded,
     products = [], orders = [], support_messages = [], seq_categories = 6, seq_products = 0,
     seq_orders = 0, seq_support = 0, last_insert_rowid = 6 \<rparr>"
    by (simp add: execute_def fresh_shop_eq)
  have m: "hd DEFAULT_CATEGORIES \<in> set (map cat_name seeded)"
    by (simp add: seeded_names) (simp add: DEFAULT_CATEGORIES_def)
  note t = category_names_unique[OF i n, where
      ops = "[Add_category (hd DEFAULT_CATEGORIES) 5, Rename_category 2 (hd DEFAULT_CATEGORIES),
              Rename_category 2 (ascii ''Tulips''), Delete_category 3,
              Add_category (ascii ''Tulips'') 6, Add_category (ascii ''Peonies'') 7]"
      and path = "[]" and ops' = "[]" and name = "hd DEFAULT_CATEGORIES" and now = 5]
  from t have d: "distinct (map cat_name (category_rows (category_steps fresh_shop
     [Add_category (hd DEFAULT_CATEGORIES) 5, Rename_category 2 (hd DEFAULT_CATEGORIES),
      Rename_category 2 (ascii ''Tulips''), Delete_category 3,
      Add_category (ascii ''Tulips'') 6, Add_category (ascii ''Peonies'') 7])))"
    by (rule conjunct1)
  from t have "\<forall>t. execute fresh_shop = Inr t \<and>
        hd DEFAULT_CATEGORIES \<in> set (map cat_name (categories t)) \<longrightarrow>
        (\<exists>i db'. add_category fresh_shop (hd DEFAULT_CATEGORIES) 5 = Inr (i, db') \<and>
           category_rows db' = categories t \<and> category_rows fresh_shop = categories t)"
    by (rule conjunct2[THEN conjunct2])
  with e m have a: "\<exists>i db'. add_category fresh_shop (hd DEFAULT_CATEGORIES) 5 = Inr (i, db') \<and>
      category_rows db' = seeded"
    by fastforce
  show ?thesis using i n r d a by (intro conjI)
qed

end
